theory Spec2Isabelle
  imports Main "HOL-Library.Char_ord" "HOL-Library.List_Lexorder" "HOL-Library.Sublist"
begin

section \<open>Data model (models/models.go)\<close>

text \<open>
  Go strings are byte strings, modelled as \<open>string\<close> (a list of 8-bit characters).
  \<open>VerificationStatus\<close> is a Go string type, and the status column is TEXT, so a status
  is a string here too; the three constants are the ones of models.go.
  A nullable column (\<open>sql.NullString\<close>) is an option. The timestamp columns
  (\<open>last_verified\<close>, \<open>created_at\<close>, \<open>updated_at\<close>) are left out: nothing below reads them.
\<close>

definition StatusPending :: string where "StatusPending = ''pending''"
definition StatusVerified :: string where "StatusVerified = ''verified''"
definition StatusFailed :: string where "StatusFailed = ''failed''"

record Deployment =
  ID :: int
  AppID :: int
  DeploymentName :: string
  CommitSHA :: "string option"
  Status :: string
  VerificationMsg :: "string option"

section \<open>Status aggregation (api/templates.go, renderAppCard)\<close>

text \<open>
  \<open>DeploymentStatus\<close> is the view struct filled per deployment row. The fields derived from
  the manifest and from time formatting (\<open>EnclaveIDs\<close>, \<open>LastVerified\<close>, \<open>CommitSHAShort\<close>)
  do not take part in the aggregation and are left out.
\<close>

record DeploymentStatus =
  dsName :: string
  dsStatus :: string
  dsCommitSHA :: string
  dsVerificationMsg :: string

definition NullString_String :: "string option \<Rightarrow> string" where
  "NullString_String n = (case n of None \<Rightarrow> [] | Some s \<Rightarrow> s)"

definition deploymentStatus :: "Deployment \<Rightarrow> DeploymentStatus" where
  "deploymentStatus dep =
     \<lparr> dsName = DeploymentName dep, dsStatus = Status dep,
       dsCommitSHA = NullString_String (CommitSHA dep),
       dsVerificationMsg = NullString_String (VerificationMsg dep) \<rparr>"

text \<open>
  The loop \<open>for _, dep := range deployments\<close>: a row named "mainnet" overwrites
  \<open>mainnetDeployment\<close>, every other row is appended to \<open>otherDeployments\<close>.
\<close>

fun processDeployments ::
  "Deployment list \<Rightarrow> DeploymentStatus option \<Rightarrow> DeploymentStatus list
     \<Rightarrow> DeploymentStatus option \<times> DeploymentStatus list" where
  "processDeployments [] mainnetDeployment otherDeployments =
     (mainnetDeployment, otherDeployments)"
| "processDeployments (dep # deps) mainnetDeployment otherDeployments =
     (if DeploymentName dep = ''mainnet''
      then processDeployments deps (Some (deploymentStatus dep)) otherDeployments
      else processDeployments deps mainnetDeployment (otherDeployments @ [deploymentStatus dep]))"

text \<open>
  The inner loop over \<open>otherDeployments\<close>: the first verified entry sets the aggregate
  and breaks.
\<close>

fun scanVerified :: "DeploymentStatus list \<Rightarrow> string \<Rightarrow> string" where
  "scanVerified [] aggregatedStatus = aggregatedStatus"
| "scanVerified (dep # deps) aggregatedStatus =
     (if dsStatus dep = StatusVerified then StatusVerified
      else scanVerified deps aggregatedStatus)"

definition aggregatedStatus :: "Deployment list \<Rightarrow> string" where
  "aggregatedStatus deployments =
     (case processDeployments deployments None [] of
        (Some mainnetDeployment, otherDeployments) \<Rightarrow> dsStatus mainnetDeployment
      | (None, otherDeployments) \<Rightarrow>
          (if length otherDeployments > 0
           then (let agg = scanVerified otherDeployments ''pending''
                 in if agg \<noteq> StatusVerified then dsStatus (otherDeployments ! 0) else agg)
           else ''pending''))"

section \<open>The deployments table (db package)\<close>

text \<open>
  \<open>GetDeploymentsByAppID\<close> is the query
  \<open>SELECT ... FROM deployments WHERE app_id = ? ORDER BY deployment_name ASC\<close>.
  The table is a list of rows; TEXT is compared bytewise (SQLite's default collation),
  which is the lexicographic order on \<open>string\<close>.
\<close>

definition GetDeploymentsByAppID :: "Deployment list \<Rightarrow> int \<Rightarrow> Deployment list" where
  "GetDeploymentsByAppID rows appID =
     sort_key DeploymentName (filter (\<lambda>d. AppID d = appID) rows)"

text \<open>The schema's constraint \<open>UNIQUE(app_id, deployment_name)\<close>.\<close>

definition uniqueDeployments :: "Deployment list \<Rightarrow> bool" where
  "uniqueDeployments rows = distinct (map (\<lambda>d. (AppID d, DeploymentName d)) rows)"

section \<open>Go's \<open>strings\<close> functions used by the worker\<close>

text \<open>
  \<open>strings.HasPrefix\<close>, \<open>strings.Contains\<close>, \<open>strings.Split\<close> (with the one-byte
  separator the worker uses), \<open>strings.TrimRight\<close> and \<open>len\<close> work on bytes.
\<close>

definition HasPrefix :: "string \<Rightarrow> string \<Rightarrow> bool" where
  "HasPrefix s pre = prefix pre s"

fun Contains :: "string \<Rightarrow> string \<Rightarrow> bool" where
  "Contains [] substr = (substr = [])"
| "Contains (c # s) substr = (prefix substr (c # s) \<or> Contains s substr)"

fun Split :: "string \<Rightarrow> char \<Rightarrow> string list" where
  "Split [] sep = [[]]"
| "Split (c # s) sep =
     (if c = sep then [] # Split s sep
      else (case Split s sep of [] \<Rightarrow> [[c]] | l # ls \<Rightarrow> (c # l) # ls))"

definition TrimRight :: "string \<Rightarrow> string \<Rightarrow> string" where
  "TrimRight s cutset = rev (dropWhile (\<lambda>c. c \<in> set cutset) (rev s))"

text \<open>
  \<open>strings.Fields\<close> splits around runs of white space as \<open>unicode.IsSpace\<close> defines it.
  On a byte string that is: the six ASCII space characters, and the UTF-8 encodings of
  U+0085, U+00A0, U+1680, U+2000 to U+200A, U+2028, U+2029, U+202F, U+205F and U+3000.
  Each encoding starts with a lead byte, which no other rune's encoding contains after its
  first byte, so a white-space rune stands exactly where its bytes stand.
\<close>

definition spaceRunes :: "string list" where
  "spaceRunes =
     [[CHR 0x09], [CHR 0x0A], [CHR 0x0B], [CHR 0x0C], [CHR 0x0D], [CHR 0x20],
      [CHR 0xC2, CHR 0x85], [CHR 0xC2, CHR 0xA0], [CHR 0xE1, CHR 0x9A, CHR 0x80],
      [CHR 0xE2, CHR 0x80, CHR 0x80], [CHR 0xE2, CHR 0x80, CHR 0x81],
      [CHR 0xE2, CHR 0x80, CHR 0x82], [CHR 0xE2, CHR 0x80, CHR 0x83],
      [CHR 0xE2, CHR 0x80, CHR 0x84], [CHR 0xE2, CHR 0x80, CHR 0x85],
      [CHR 0xE2, CHR 0x80, CHR 0x86], [CHR 0xE2, CHR 0x80, CHR 0x87],
      [CHR 0xE2, CHR 0x80, CHR 0x88], [CHR 0xE2, CHR 0x80, CHR 0x89],
      [CHR 0xE2, CHR 0x80, CHR 0x8A], [CHR 0xE2, CHR 0x80, CHR 0xA8],
      [CHR 0xE2, CHR 0x80, CHR 0xA9], [CHR 0xE2, CHR 0x80, CHR 0xAF],
      [CHR 0xE2, CHR 0x81, CHR 0x9F], [CHR 0xE3, CHR 0x80, CHR 0x80]]"

definition spaceWidth :: "string \<Rightarrow> nat" where
  "spaceWidth s = (case find (\<lambda>r. prefix r s) spaceRunes of None \<Rightarrow> 0 | Some r \<Rightarrow> length r)"

text \<open>
  \<open>fieldsLoop cur skip s\<close>: \<open>cur\<close> is the field being read, \<open>skip\<close> the bytes of a
  white-space rune still to pass over.
\<close>

fun fieldsLoop :: "string \<Rightarrow> nat \<Rightarrow> string \<Rightarrow> string list" where
  "fieldsLoop cur skip [] = (if cur = [] then [] else [cur])"
| "fieldsLoop cur skip (c # s) =
     (if skip > 0 then fieldsLoop cur (skip - 1) s
      else if spaceWidth (c # s) > 0
      then (if cur = [] then fieldsLoop [] (spaceWidth (c # s) - 1) s
            else cur # fieldsLoop [] (spaceWidth (c # s) - 1) s)
      else fieldsLoop (cur @ [c]) 0 s)"

definition Fields :: "string \<Rightarrow> string list" where
  "Fields s = fieldsLoop [] 0 s"

text \<open>
  \<open>strings.ToLower\<close>, on the ASCII letters. Go also maps upper-case letters beyond ASCII;
  the worker only uses the lowered line to decide whether to scan a line a second time,
  which does not change what \<open>parseMismatchedIDs\<close> returns (lemma \<open>scanLines_eq\<close> and
  \<open>firstAppearance_rescan\<close> below).
\<close>

definition toLowerChar :: "char \<Rightarrow> char" where
  "toLowerChar c =
     (if CHR ''A'' \<le> c \<and> c \<le> CHR ''Z'' then char_of (of_char c + (32::nat)) else c)"

definition ToLower :: "string \<Rightarrow> string" where
  "ToLower s = map toLowerChar s"

text \<open>\<open>strings.EqualFold\<close>, on ASCII letters (see the session manager below).\<close>

definition EqualFold :: "string \<Rightarrow> string \<Rightarrow> bool" where
  "EqualFold s t = (ToLower s = ToLower t)"

text \<open>\<open>%d\<close> of \<open>fmt\<close>: an integer in decimal.\<close>

definition digitChar :: "nat \<Rightarrow> char" where
  "digitChar d = char_of (48 + d)"

function itoaNat :: "nat \<Rightarrow> string" where
  "itoaNat n = (if n < 10 then [digitChar n] else itoaNat (n div 10) @ [digitChar (n mod 10)])"
  by pat_completeness auto
termination
  by (relation "measure id") auto

definition itoa :: "int \<Rightarrow> string" where
  "itoa i = (if i < 0 then CHR ''-'' # itoaNat (nat (- i)) else itoaNat (nat i))"

definition newline :: char where
  "newline = CHR 0x0A"

section \<open>Verification results and their diagnostics (worker package)\<close>

record VerifyDeploymentsResult =
  resStatus :: string
  Verified :: bool
  resCommitSHA :: string
  Stdout :: string
  Stderr :: string
  Err :: string

text \<open>The loop \<open>for _, word := range words\<close> of \<open>parseMismatchedIDs\<close>.\<close>

fun collectWords :: "string list \<Rightarrow> string list \<Rightarrow> string list" where
  "collectWords [] ids = ids"
| "collectWords (word # words) ids =
     (if HasPrefix word ''rofl1'' \<and> length word > 10
      then collectWords words (ids @ [TrimRight word '',.;:''])
      else collectWords words ids)"

text \<open>The body of \<open>for _, line := range lines\<close>: the scan, and the second scan of a
  line that mentions a mismatch.\<close>

definition scanLine :: "string \<Rightarrow> string list \<Rightarrow> string list" where
  "scanLine line ids =
     (let ids1 = (if Contains line ''rofl1'' then collectWords (Fields line) ids else ids)
      in if Contains (ToLower line) ''mismatch'' \<or> Contains (ToLower line) ''expected''
            \<or> Contains (ToLower line) ''actual''
         then (if Contains line ''rofl1'' then collectWords (Fields line) ids1 else ids1)
         else ids1)"

fun scanLines :: "string list \<Rightarrow> string list \<Rightarrow> string list" where
  "scanLines [] ids = ids"
| "scanLines (line # lines) ids = scanLines lines (scanLine line ids)"

text \<open>The loop that removes duplicates; \<open>seen\<close> is the \<open>map[string]bool\<close>.\<close>

fun removeDuplicates :: "string list \<Rightarrow> (string \<Rightarrow> bool) \<Rightarrow> string list \<Rightarrow> string list" where
  "removeDuplicates [] seen unique = unique"
| "removeDuplicates (ident # ids) seen unique =
     (if \<not> seen ident then removeDuplicates ids (seen(ident := True)) (unique @ [ident])
      else removeDuplicates ids seen unique)"

definition parseMismatchedIDs :: "string \<Rightarrow> string list" where
  "parseMismatchedIDs output =
     removeDuplicates (scanLines (Split output newline) []) (\<lambda>_. False) []"

fun appendIDs :: "string \<Rightarrow> string list \<Rightarrow> string" where
  "appendIDs msg [] = msg"
| "appendIDs msg (ident # ids) = appendIDs (msg @ ''  - '' @ ident @ [newline]) ids"

definition mismatchHeader :: string where
  "mismatchHeader =
     ''Verification failed: enclave measurements do not match on-chain deployments.''
       @ [newline, newline]"

definition mismatchHint :: string where
  "mismatchHint =
     ''This usually means the application was built with different code or build configuration than what''
       @ [CHR 0x27] @ ''s in the repository.''"

definition formatVerificationError :: "VerifyDeploymentsResult \<Rightarrow> string" where
  "formatVerificationError result =
     (if Contains (Err result) ''exit status 1'' \<or> Contains (Err result) ''command''
      then (let msg = mismatchHeader;
                mismatchedIDs = parseMismatchedIDs (Stderr result @ [newline] @ Stdout result);
                msg = (if length mismatchedIDs > 0
                       then appendIDs (msg @ ''Mismatched Enclave IDs:'' @ [newline]) mismatchedIDs
                              @ [newline]
                       else msg)
            in msg @ mismatchHint)
      else if Err result \<noteq> [] then Err result
      else ''Verification failed: enclave measurements do not match'')"

text \<open>
  What the scan looks for, stated on its own: the white-space separated words of each
  line that start with \<open>rofl1\<close> and are longer than ten bytes, with trailing punctuation
  removed, in the order of the text.
\<close>

definition lineTokens :: "string \<Rightarrow> string list" where
  "lineTokens line =
     map (\<lambda>w. TrimRight w '',.;:'')
       (filter (\<lambda>w. prefix ''rofl1'' w \<and> length w > 10) (Fields line))"

definition enclaveTokens :: "string \<Rightarrow> string list" where
  "enclaveTokens output = concat (map lineTokens (Split output newline))"

text \<open>A list without its repetitions, each element at its first appearance.\<close>

definition firstAppearance :: "'a list \<Rightarrow> 'a list" where
  "firstAppearance xs = rev (remdups (rev xs))"

definition idSection :: "string list \<Rightarrow> string" where
  "idSection ids =
     (if ids = [] then []
      else ''Mismatched Enclave IDs:'' @ [newline]
             @ concat (map (\<lambda>ident. ''  - '' @ ident @ [newline]) ids) @ [newline])"

text \<open>Whether a line is scanned a second time.\<close>

definition rescanned :: "string \<Rightarrow> bool" where
  "rescanned line = (Contains (ToLower line) ''mismatch'' \<or> Contains (ToLower line) ''expected''
            \<or> Contains (ToLower line) ''actual'')"

section \<open>Errors, durations and HTTP exchanges\<close>

text \<open>
  A Go error is a value with a message. \<open>Canceled\<close> and \<open>DeadlineExceeded\<close> are the
  two errors a context reports (\<open>ctx.Err()\<close>); \<open>ErrorString\<close> is an error made by
  \<open>fmt.Errorf\<close> without \<open>%w\<close>, or one that comes from a library; \<open>Wrapped msg e\<close> is
  \<open>fmt.Errorf(msg + "%w", e)\<close>. \<open>Error\<close> is the method of that name and \<open>Is\<close> is
  \<open>errors.Is\<close>.
\<close>

datatype error = Canceled | DeadlineExceeded | ErrorString string | Wrapped string error

fun Error :: "error \<Rightarrow> string" where
  "Error Canceled = ''context canceled''"
| "Error DeadlineExceeded = ''context deadline exceeded''"
| "Error (ErrorString s) = s"
| "Error (Wrapped msg e) = msg @ Error e"


text \<open>
  An instant is an integer counting nanoseconds (a reading of the clock; \<open>time.Time\<close>
  holds instants exactly over any range a run meets). A \<open>time.Duration\<close> is a signed
  64-bit count of nanoseconds: \<open>Duration n\<close> is the value Go's 64-bit arithmetic gives
  for the mathematical result \<open>n\<close>, so \<open>time.Duration(x) * time.Minute\<close> is
  \<open>Duration (x * Minute)\<close> and wraps for a large \<open>x\<close>.
\<close>

definition Second :: int where "Second = 1000000000"
definition Minute :: int where "Minute = 60 * Second"
definition Hour :: int where "Hour = 60 * Minute"

definition Duration :: "int \<Rightarrow> int" where
  "Duration n = (n + 2 ^ 63) mod 2 ^ 64 - 2 ^ 63"

text \<open>
  \<open>%v\<close> of a duration (\<open>Duration.String\<close>): \<open>5m0s\<close>, \<open>1h30m0s\<close>, \<open>1.5s\<close>, \<open>0s\<close>.
  \<open>fmtFrac v prec\<close> is the fraction made of the last \<open>prec\<close> decimal digits of \<open>v\<close>,
  without its trailing zeros, and nothing when they are all zero; \<open>decimal\<close> writes
  a number that is not negative.
\<close>

function decimal :: "int \<Rightarrow> string" where
  "decimal n =
     (if n < 10 then [digitChar (nat n)]
      else decimal (n div 10) @ [digitChar (nat (n mod 10))])"
  by pat_completeness auto
termination
  by (relation "measure nat") auto

fun lastDigits :: "int \<Rightarrow> nat \<Rightarrow> string" where
  "lastDigits v 0 = []"
| "lastDigits v (Suc prec) = lastDigits (v div 10) prec @ [digitChar (nat (v mod 10))]"

definition fmtFrac :: "int \<Rightarrow> nat \<Rightarrow> string" where
  "fmtFrac v prec =
     (let digits = rev (dropWhile (\<lambda>c. c = CHR ''0'') (rev (lastDigits v prec)))
      in if digits = [] then [] else CHR ''.'' # digits)"

definition DurationString :: "int \<Rightarrow> string" where
  "DurationString d =
     (let u = \<bar>d\<bar> in
      if u = 0 then ''0s''
      else (if d < 0 then ''-'' else [])
        @ (if u < 1000000000
           then (if u < 1000 then decimal u @ ''ns''
                 else if u < 1000000
                 then decimal (u div 1000) @ fmtFrac u 3 @ [CHR 0xC2, CHR 0xB5] @ ''s''
                 else decimal (u div 1000000) @ fmtFrac u 6 @ ''ms'')
           else (let secs = u div 1000000000; mins = secs div 60; hours = mins div 60
                 in (if hours > 0 then decimal hours @ ''h'' else [])
                    @ (if mins > 0 then decimal (mins mod 60) @ ''m'' else [])
                    @ decimal (secs mod 60) @ fmtFrac u 9 @ ''s'')))"

text \<open>
  What the environment answers to one HTTP exchange, in the order the code looks at it:
  whether \<open>http.NewRequestWithContext\<close> fails, whether \<open>client.Do\<close> fails, the status
  code of the response, and what decoding the body as JSON gives.
\<close>

record 'b exchange =
  newRequestErr :: "error option"
  sendErr :: "error option"
  statusCode :: int
  decoded :: "error + 'b"

definition StatusOK :: int where "StatusOK = 200"
definition StatusAccepted :: int where "StatusAccepted = 202"
definition StatusNotFound :: int where "StatusNotFound = 404"

section \<open>The session manager (worker/auth.go)\<close>

text \<open>
  \<open>address\<close> is the session's address in the form \<open>a.address.Hex()\<close> gives it: "0x" and
  forty hexadecimal digits. On such a string \<open>strings.EqualFold\<close> is equality up to the
  case of ASCII letters, which is how \<open>EqualFold\<close> is defined above: no character beyond
  ASCII folds to a hexadecimal digit or to "x". The private key is only used by
  \<open>crypto.Sign\<close>, which belongs to the environment here.
\<close>

record AuthClient =
  backendURL :: string
  address :: string
  siweDomain :: string
  chainID :: int
  token :: string
  exp :: int

record login_body =
  Token :: string
  Address :: string

text \<open>
  The requests sent to the backend, as a log. Marshalling the login payload (a map with
  one string) does not fail, so that branch of \<open>authenticate\<close> has no counterpart.
\<close>

datatype call = NonceRequest string | LoginRequest string string

text \<open>
  The environment of one sign-in handshake: the two HTTP exchanges, the message
  \<open>siwe.InitMessage\<close> builds from the nonce (or its error), and the signature
  \<open>crypto.Sign\<close> gives for the message (or its error). \<open>tokenLifetime\<close> is how long
  the backend accepts a token after it has issued it; the login reply has the two fields
  \<open>token\<close> and \<open>address\<close> only, so no function below can read the lifetime.
\<close>

record handshake_env =
  nonceExchange :: "string exchange"
  siweMessage :: "string \<Rightarrow> error + string"
  signature :: "string \<Rightarrow> error + string"
  loginExchange :: "login_body exchange"
  tokenLifetime :: int

definition hexDigit :: "nat \<Rightarrow> char" where
  "hexDigit d = (if d < 10 then char_of (48 + d) else char_of (87 + d))"

definition EncodeToString :: "string \<Rightarrow> string" where
  "EncodeToString bs =
     concat (map (\<lambda>b. [hexDigit (of_char b div 16), hexDigit (of_char b mod 16)]) bs)"

definition getNonce :: "AuthClient \<Rightarrow> string exchange \<Rightarrow> (error + string) \<times> call list" where
  "getNonce a ex =
     (let url = backendURL a @ ''/auth/nonce?address='' @ address a in
      case newRequestErr ex of
        Some e \<Rightarrow> (Inl (Wrapped ''failed to create request: '' e), [])
      | None \<Rightarrow>
          (case sendErr ex of
             Some e \<Rightarrow> (Inl (Wrapped ''failed to send request: '' e), [NonceRequest url])
           | None \<Rightarrow>
               (if statusCode ex \<noteq> StatusOK
                then (Inl (ErrorString (''unexpected status code: '' @ itoa (statusCode ex))),
                      [NonceRequest url])
                else (case decoded ex of
                        Inl e \<Rightarrow> (Inl (Wrapped ''failed to decode response: '' e), [NonceRequest url])
                      | Inr nonce \<Rightarrow> (Inr nonce, [NonceRequest url])))))"

definition authenticate ::
  "AuthClient \<Rightarrow> string \<Rightarrow> string \<Rightarrow> login_body exchange \<Rightarrow> (error + string) \<times> call list" where
  "authenticate a message sig ex =
     (let sigHex = ''0x'' @ EncodeToString sig;
          url = backendURL a @ ''/auth/login?sig='' @ sigHex in
      case newRequestErr ex of
        Some e \<Rightarrow> (Inl (Wrapped ''failed to create request: '' e), [])
      | None \<Rightarrow>
          (case sendErr ex of
             Some e \<Rightarrow> (Inl (Wrapped ''failed to send request: '' e), [LoginRequest url message])
           | None \<Rightarrow>
               (if statusCode ex \<noteq> StatusOK
                then (Inl (ErrorString (''authentication failed with status code: ''
                             @ itoa (statusCode ex))), [LoginRequest url message])
                else (case decoded ex of
                        Inl e \<Rightarrow> (Inl (Wrapped ''failed to decode response: '' e),
                                  [LoginRequest url message])
                      | Inr result \<Rightarrow>
                          (if Token result = []
                           then (Inl (ErrorString ''empty token in response''),
                                 [LoginRequest url message])
                           else if \<not> EqualFold (Address result) (address a)
                           then (Inl (ErrorString (''address mismatch: expected '' @ address a
                                        @ '', got '' @ Address result)),
                                 [LoginRequest url message])
                           else (Inr (Token result), [LoginRequest url message]))))))"

definition performSIWELogin ::
  "AuthClient \<Rightarrow> handshake_env \<Rightarrow> (error + string) \<times> call list" where
  "performSIWELogin a env =
     (case getNonce a (nonceExchange env) of
        (Inl e, cs) \<Rightarrow> (Inl (Wrapped ''failed to get nonce: '' e), cs)
      | (Inr nonce, cs) \<Rightarrow>
          (case siweMessage env nonce of
             Inl e \<Rightarrow> (Inl (Wrapped ''failed to build SIWE message: '' e), cs)
           | Inr msg \<Rightarrow>
               (case signature env msg of
                  Inl e \<Rightarrow> (Inl (Wrapped ''failed to sign message: '' e), cs)
                | Inr sig \<Rightarrow>
                    (case authenticate a msg sig (loginExchange env) of
                       (Inl e, cs') \<Rightarrow> (Inl (Wrapped ''failed to authenticate: '' e), cs @ cs')
                     | (Inr tok, cs') \<Rightarrow> (Inr tok, cs @ cs')))))"

text \<open>
  \<open>GetToken\<close> looks at the cache twice. \<open>a\<close> is the client as the check under the
  read lock finds it, at the clock reading \<open>now1\<close>. Between the release of the read lock
  and the write lock another caller may store a token and its expiry: \<open>other\<close> is what
  the last of them stored (\<open>None\<close> when there was none), and \<open>afterOthers a other\<close> is
  the client as the check under the write lock finds it, at the reading \<open>now2\<close>.
  \<open>now3\<close> is the reading when the new token is stored. The result is the token or the
  error, the client with its cache as the call leaves it, and the requests the call
  sent.
\<close>

definition afterOthers :: "AuthClient \<Rightarrow> (string \<times> int) option \<Rightarrow> AuthClient" where
  "afterOthers a other =
     (case other of None \<Rightarrow> a | Some (tok, e) \<Rightarrow> a\<lparr>token := tok, exp := e\<rparr>)"

definition GetToken ::
  "AuthClient \<Rightarrow> int \<Rightarrow> (string \<times> int) option \<Rightarrow> int \<Rightarrow> int \<Rightarrow> handshake_env
     \<Rightarrow> (error + string) \<times> AuthClient \<times> call list" where
  "GetToken a now1 other now2 now3 env =
     (if token a \<noteq> [] \<and> now1 + 5 * Minute < exp a then (Inr (token a), a, [])
      else (let a' = afterOthers a other in
            if token a' \<noteq> [] \<and> now2 + 5 * Minute < exp a' then (Inr (token a'), a', [])
            else (case performSIWELogin a' env of
                    (Inl e, cs) \<Rightarrow> (Inl (Wrapped ''failed to perform SIWE login: '' e), a', cs)
                  | (Inr tok, cs) \<Rightarrow>
                      (Inr tok, a'\<lparr>token := tok, exp := now3 + 11 * Hour\<rparr>, cs))))"

section \<open>The worker: configuration and polling (config and worker packages)\<close>

record WorkerConfig =
  Enabled :: bool
  BackendURL :: string
  AppInterval :: int
  PollInterval :: int
  PollTimeout :: int
  PrivateKey :: string
  SIWEDomain :: string
  ChainID :: int

text \<open>
  The worker holds its configuration and, when a private key is configured, an
  \<open>AuthClient\<close> (\<open>None\<close> is the nil pointer). The store and the logger are passed
  explicitly where they are used.
\<close>

record Worker =
  cfg :: WorkerConfig
  authClient :: "AuthClient option"

text \<open>
  The environment of one call of the worker to the backend: what \<open>GetToken\<close> returns if
  it is called, and the HTTP exchange.
\<close>

record 'b backend_call =
  tokenResult :: "error + string"
  http :: "'b exchange"

text \<open>
  \<open>checkResults\<close> returns the triple (result, status, err) of the Go function: \<open>Inl err\<close>
  when \<open>err\<close> is not nil, else the result pointer (\<open>None\<close> is nil) and the status.
\<close>

definition checkResults ::
  "Worker \<Rightarrow> VerifyDeploymentsResult backend_call
     \<Rightarrow> error + (VerifyDeploymentsResult option \<times> int)" where
  "checkResults w env =
     (case newRequestErr (http env) of
        Some e \<Rightarrow> Inl (Wrapped ''failed to create request: '' e)
      | None \<Rightarrow>
          (case (if authClient w \<noteq> None then tokenResult env else Inr []) of
             Inl e \<Rightarrow> Inl (Wrapped ''failed to get auth token: '' e)
           | Inr tok \<Rightarrow>
               (case sendErr (http env) of
                  Some e \<Rightarrow> Inl (Wrapped ''failed to send request: '' e)
                | None \<Rightarrow>
                    (if statusCode (http env) \<noteq> StatusOK
                     then Inr (None, statusCode (http env))
                     else (case decoded (http env) of
                             Inl e \<Rightarrow> Inl (Wrapped ''failed to decode response: '' e)
                           | Inr result \<Rightarrow> Inr (Some result, statusCode (http env)))))))"

text \<open>
  What one \<open>select\<close> of the polling loop receives: the context's \<open>Done\<close> channel, or a
  tick. A tick carries the reading of \<open>time.Now()\<close> taken after it, and the environment
  of the \<open>checkResults\<close> call that may follow. The list of events is what the loop is
  given, in order; the time between two ticks is at least the time the call between them
  took, and can exceed the ticker's period when that call is slow (the HTTP client
  allows a call 30 seconds).
\<close>

datatype select_event = CtxDone | Tick int "VerifyDeploymentsResult backend_call"

text \<open>
  How a function that waits ends: it returns, it panics, or the events given to it end
  while it is still waiting.
\<close>

datatype 'a outcome = Return 'a | Panic string | Pending

text \<open>
  The loop of \<open>pollResults\<close>. \<open>ctxErr\<close> is what \<open>ctx.Err()\<close> returns once the context
  is done; \<open>n\<close> counts the calls of \<open>checkResults\<close> made so far and is returned with
  the result.
\<close>

fun pollLoop ::
  "Worker \<Rightarrow> error \<Rightarrow> int \<Rightarrow> select_event list \<Rightarrow> nat
     \<Rightarrow> ((error + VerifyDeploymentsResult option) \<times> nat) outcome" where
  "pollLoop w ctxErr deadline [] n = Pending"
| "pollLoop w ctxErr deadline (CtxDone # events) n = Return (Inl ctxErr, n)"
| "pollLoop w ctxErr deadline (Tick now env # events) n =
     (if now > deadline
      then Return (Inl (ErrorString (''polling timeout after ''
                          @ DurationString (Duration (PollTimeout (cfg w) * Minute)))), n)
      else (case checkResults w env of
              Inl err \<Rightarrow> Return (Inl (Wrapped ''failed to check results: '' err), Suc n)
            | Inr (result, status) \<Rightarrow>
                (if status = StatusOK then Return (Inr result, Suc n)
                 else if status = StatusAccepted then pollLoop w ctxErr deadline events (Suc n)
                 else if status = StatusNotFound
                 then Return (Inl (ErrorString ''task not found or expired''), Suc n)
                 else Return (Inl (ErrorString (''unexpected status code: '' @ itoa status)),
                              Suc n))))"

text \<open>
  \<open>pollResults\<close>: \<open>start\<close> is the reading of \<open>time.Now()\<close> the deadline is computed
  from. The two durations are computed from the configured integers in 64-bit
  arithmetic. \<open>time.NewTicker\<close> panics on a period that is not positive.
\<close>

definition pollResults ::
  "Worker \<Rightarrow> error \<Rightarrow> int \<Rightarrow> select_event list
     \<Rightarrow> ((error + VerifyDeploymentsResult option) \<times> nat) outcome" where
  "pollResults w ctxErr start events =
     (let pollInterval = Duration (PollInterval (cfg w) * Second);
          timeout = Duration (PollTimeout (cfg w) * Minute);
          deadline = start + timeout
      in if pollInterval \<le> 0 then Panic ''non-positive interval for NewTicker''
         else pollLoop w ctxErr deadline events 0)"

text \<open>
  A tick that arrives before the deadline has passed and is answered "in progress".
\<close>

fun inProgress :: "Worker \<Rightarrow> int \<Rightarrow> select_event \<Rightarrow> bool" where
  "inProgress w deadline CtxDone = False"
| "inProgress w deadline (Tick now env) =
     (now \<le> deadline \<and> checkResults w env = Inr (None, StatusAccepted))"




section \<open>The worker: submission, one deployment, one application\<close>

record App =
  App_ID :: int
  GitHubURL :: string
  GitRef :: string
  RoflYAML :: "string option"

record VerifyDeploymentsResponse =
  TaskID :: string

text \<open>
  \<open>submitVerification\<close>. The repository URL, the ref and the deployment name go into
  the request body, which the environment answers; marshalling a struct of three strings
  does not fail.
\<close>

definition submitVerification ::
  "Worker \<Rightarrow> string \<Rightarrow> string \<Rightarrow> string \<Rightarrow> VerifyDeploymentsResponse backend_call
     \<Rightarrow> error + string" where
  "submitVerification w repositoryURL ref deploymentName env =
     (case newRequestErr (http env) of
        Some e \<Rightarrow> Inl (Wrapped ''failed to create request: '' e)
      | None \<Rightarrow>
          (case (if authClient w \<noteq> None then tokenResult env else Inr []) of
             Inl e \<Rightarrow> Inl (Wrapped ''failed to get auth token: '' e)
           | Inr tok \<Rightarrow>
               (case sendErr (http env) of
                  Some e \<Rightarrow> Inl (Wrapped ''failed to send request: '' e)
                | None \<Rightarrow>
                    (if statusCode (http env) \<noteq> StatusOK
                     then Inl (ErrorString (''unexpected status code: ''
                                 @ itoa (statusCode (http env))))
                     else (case decoded (http env) of
                             Inl e \<Rightarrow> Inl (Wrapped ''failed to decode response: '' e)
                           | Inr result \<Rightarrow> Inr (TaskID result))))))"

text \<open>
  \<open>UpsertDeployment\<close> is an insert that, on a conflict on (app_id, deployment_name),
  updates the commit, the status and the message of the row. What the store does is its
  answer \<open>exec\<close>: the error of \<open>ExecContext\<close> if the statement fails, else the id it
  gives the row if the statement inserts one.
\<close>

definition UpsertDeployment ::
  "Deployment list \<Rightarrow> int \<Rightarrow> string \<Rightarrow> string \<Rightarrow> string \<Rightarrow> string \<Rightarrow> error + int
     \<Rightarrow> error option \<times> Deployment list" where
  "UpsertDeployment rows appID deploymentName commitSHA status verificationMsg exec =
     (case exec of
        Inl e \<Rightarrow> (Some (Wrapped ''failed to upsert deployment: '' e), rows)
      | Inr rowID \<Rightarrow>
          (None,
           if \<exists>d\<in>set rows. AppID d = appID \<and> DeploymentName d = deploymentName
           then map (\<lambda>d. if AppID d = appID \<and> DeploymentName d = deploymentName
                           then d\<lparr>CommitSHA := Some commitSHA, Status := status,
                                  VerificationMsg := Some verificationMsg\<rparr>
                           else d) rows
           else rows @ [\<lparr>ID = rowID, AppID = appID, DeploymentName = deploymentName,
                          CommitSHA = Some commitSHA, Status = status,
                          VerificationMsg = Some verificationMsg\<rparr>]))"

text \<open>
  The environment of the verification of one deployment: the answer to the submission,
  the clock reading at the start of the polling with the events the polling loop
  receives, and the store's answer to the one write the verification makes.
\<close>

record deploy_env =
  submitEnv :: "VerifyDeploymentsResponse backend_call"
  pollStart :: int
  pollEvents :: "select_event list"
  upsertExec :: "error + int"

definition matchMessage :: string where
  "matchMessage = ''Built enclave identities MATCH on-chain measurements. Verification successful.''"

text \<open>
  \<open>verifyDeployment\<close> returns its error (\<open>None\<close> is nil) and the table. An error of
  the store write in the two failure branches is only logged.
\<close>

definition verifyDeployment ::
  "Worker \<Rightarrow> error \<Rightarrow> Deployment list \<Rightarrow> App \<Rightarrow> string \<Rightarrow> deploy_env
     \<Rightarrow> (error option \<times> Deployment list) outcome" where
  "verifyDeployment w ctxErr rows app deploymentName env =
     (case submitVerification w (GitHubURL app) (GitRef app) deploymentName (submitEnv env) of
        Inl err \<Rightarrow>
          (case UpsertDeployment rows (App_ID app) deploymentName [] ''failed''
                  (''Failed to submit verification: '' @ Error err) (upsertExec env) of
             (updateErr, rows') \<Rightarrow>
               Return (Some (Wrapped ''failed to submit verification: '' err), rows'))
      | Inr taskID \<Rightarrow>
          (case pollResults w ctxErr (pollStart env) (pollEvents env) of
             Pending \<Rightarrow> Pending
           | Panic s \<Rightarrow> Panic s
           | Return (Inl err, n) \<Rightarrow>
               (case UpsertDeployment rows (App_ID app) deploymentName [] ''failed''
                       (''Failed to poll results: '' @ Error err) (upsertExec env) of
                  (updateErr, rows') \<Rightarrow>
                    Return (Some (Wrapped ''failed to poll results: '' err), rows'))
           | Return (Inr None, n) \<Rightarrow> Panic ''nil pointer dereference''
           | Return (Inr (Some result), n) \<Rightarrow>
               (let status = (if Verified result then ''verified'' else ''failed'');
                    verificationMsg = (if Verified result then matchMessage
                                       else formatVerificationError result);
                    commitSHA = resCommitSHA result
                in case UpsertDeployment rows (App_ID app) deploymentName commitSHA status
                          verificationMsg (upsertExec env) of
                     (Some err, rows') \<Rightarrow>
                       Return (Some (Wrapped ''failed to update deployment verification: '' err),
                               rows')
                   | (None, rows') \<Rightarrow> Return (None, rows'))))"

text \<open>
  The environment of the verification of one application: the exchange that fetches the
  manifest (its decoded body is the text read from the response), the error of the
  store's manifest update, what \<open>rofl.Parse\<close> makes of the text (the names of the
  declared deployments, in the order the iteration over the Go map visits them), and the
  environment of each deployment.
\<close>

record app_env =
  fetchExchange :: "string exchange"
  updateYAMLErr :: "error option"
  parsed :: "string \<Rightarrow> error + string list"
  deployEnv :: "string \<Rightarrow> deploy_env"

text \<open>
  \<open>fetchRoflYAML\<close> returns its error and the manifest text it stores in \<open>app\<close>. The
  slice \<open>app.GitHubURL[len("https://github.com"):]\<close> panics on a shorter URL.
\<close>

definition fetchRoflYAML :: "App \<Rightarrow> app_env \<Rightarrow> (error option \<times> App) outcome" where
  "fetchRoflYAML app env =
     (if length (GitHubURL app) < length ''https://github.com''
      then Panic ''slice bounds out of range''
      else (case newRequestErr (fetchExchange env) of
              Some e \<Rightarrow> Return (Some (Wrapped ''failed to create request: '' e), app)
            | None \<Rightarrow>
                (case sendErr (fetchExchange env) of
                   Some e \<Rightarrow> Return (Some (Wrapped ''failed to fetch: '' e), app)
                 | None \<Rightarrow>
                     (if statusCode (fetchExchange env) \<noteq> StatusOK
                      then Return (Some (ErrorString (''HTTP '' @ itoa (statusCode (fetchExchange env)))), app)
                      else (case decoded (fetchExchange env) of
                              Inl e \<Rightarrow> Return (Some (Wrapped ''failed to read: '' e), app)
                            | Inr roflYAML \<Rightarrow>
                                (case updateYAMLErr env of
                                   Some e \<Rightarrow> Return (Some (Wrapped ''failed to update db: ''
                                               (Wrapped ''failed to update rofl.yaml: '' e)), app)
                                 | None \<Rightarrow> Return (None, app\<lparr>RoflYAML := Some roflYAML\<rparr>)))))))"

text \<open>The loop \<open>for deploymentName := range manifest.Deployments\<close> of \<open>verifyApp\<close>.\<close>

fun verifyDeployments ::
  "Worker \<Rightarrow> error \<Rightarrow> Deployment list \<Rightarrow> App \<Rightarrow> string list \<Rightarrow> (string \<Rightarrow> deploy_env)
     \<Rightarrow> error option \<Rightarrow> (error option \<times> Deployment list) outcome" where
  "verifyDeployments w ctxErr rows app [] envs lastErr = Return (lastErr, rows)"
| "verifyDeployments w ctxErr rows app (deploymentName # names) envs lastErr =
     (case verifyDeployment w ctxErr rows app deploymentName (envs deploymentName) of
        Pending \<Rightarrow> Pending
      | Panic s \<Rightarrow> Panic s
      | Return (Some err, rows') \<Rightarrow> verifyDeployments w ctxErr rows' app names envs (Some err)
      | Return (None, rows') \<Rightarrow> verifyDeployments w ctxErr rows' app names envs lastErr)"

definition verifyApp ::
  "Worker \<Rightarrow> error \<Rightarrow> Deployment list \<Rightarrow> App \<Rightarrow> app_env
     \<Rightarrow> (error option \<times> Deployment list) outcome" where
  "verifyApp w ctxErr rows app env =
     (case fetchRoflYAML app env of
        Pending \<Rightarrow> Pending
      | Panic s \<Rightarrow> Panic s
      | Return (Some err, app') \<Rightarrow> Return (Some (Wrapped ''failed to fetch rofl.yaml: '' err), rows)
      | Return (None, app') \<Rightarrow>
          (case RoflYAML app' of
             None \<Rightarrow> Return (None, rows)
           | Some yaml \<Rightarrow>
               (if yaml = [] then Return (None, rows)
                else (case parsed env yaml of
                        Inl err \<Rightarrow> Return (Some (Wrapped ''failed to parse rofl.yaml: '' err), rows)
                      | Inr names \<Rightarrow>
                          (if length names = 0 then Return (None, rows)
                           else verifyDeployments w ctxErr rows app' names (deployEnv env) None)))))"

section \<open>The worker: the verification loop (\<open>Worker.Start\<close>) and the configuration check\<close>

text \<open>
  The part of \<open>Config.Validate\<close> that concerns the worker, and the defaults \<open>Load\<close>
  sets before it.
\<close>

definition setDefaults :: "WorkerConfig \<Rightarrow> WorkerConfig" where
  "setDefaults c =
     c\<lparr>AppInterval := (if AppInterval c = 0 then 1 else AppInterval c),
       PollInterval := (if PollInterval c = 0 then 5 else PollInterval c),
       PollTimeout := (if PollTimeout c = 0 then 5 else PollTimeout c),
       SIWEDomain := (if SIWEDomain c = [] then ''localhost'' else SIWEDomain c),
       ChainID := (if ChainID c = 0 then 23295 else ChainID c)\<rparr>"


text \<open>
  The context, as the loop sees it: the loop looks at the context at numbered points
  (each \<open>ctx.Err()\<close> and each \<open>select\<close>), and \<open>ctxDone k\<close> tells whether the \<open>k\<close>-th
  look finds it done (for a \<open>select\<close>: whether \<open>Done\<close> is received rather than the
  timer). \<open>ctxError\<close> is what \<open>ctx.Err()\<close> then returns. \<open>allApps c\<close> is what
  \<open>GetAllApps\<close> returns in cycle \<open>c\<close>, and \<open>appEnv c app\<close> the environment of the
  verification of \<open>app\<close> in that cycle.
\<close>

record sched_env =
  ctxDone :: "nat \<Rightarrow> bool"
  ctxError :: error
  allApps :: "nat \<Rightarrow> error + App list"
  appEnv :: "nat \<Rightarrow> App \<Rightarrow> app_env"

text \<open>
  What the loop does, as a log: it lists the applications, processes one, or sleeps a
  whole interval.
\<close>

datatype action = Listed | Processed App | Slept int

record sched_state =
  looks :: nat
  store :: "Deployment list"
  trace :: "action list"

datatype step = Next | Stop "error option"

text \<open>
  The \<open>select\<close> between \<open>ctx.Done()\<close> and \<open>time.After(appInterval)\<close>: it returns the
  context's error, or sleeps the interval (a timer of a duration that is not positive
  fires at once, so that \<open>Slept d\<close> with such a \<open>d\<close> is no pause).
\<close>

definition sleep :: "sched_env \<Rightarrow> int \<Rightarrow> sched_state \<Rightarrow> step \<times> sched_state" where
  "sleep env appInterval st =
     (if ctxDone env (looks st) then (Stop (Some (ctxError env)), st\<lparr>looks := Suc (looks st)\<rparr>)
      else (Next, st\<lparr>looks := Suc (looks st), trace := trace st @ [Slept appInterval]\<rparr>))"

text \<open>The loop \<open>for i, app := range apps\<close>.\<close>

fun processApps ::
  "Worker \<Rightarrow> sched_env \<Rightarrow> nat \<Rightarrow> int \<Rightarrow> App list \<Rightarrow> sched_state
     \<Rightarrow> (step \<times> sched_state) outcome" where
  "processApps w env c appInterval [] st = Return (Next, st)"
| "processApps w env c appInterval (app # apps) st =
     (if ctxDone env (looks st)
      then Return (Stop (Some (ctxError env)), st\<lparr>looks := Suc (looks st)\<rparr>)
      else (case verifyApp w (ctxError env) (store st) app (appEnv env c app) of
              Pending \<Rightarrow> Pending
            | Panic s \<Rightarrow> Panic s
            | Return (err, rows') \<Rightarrow>
                (let st' = st\<lparr>looks := Suc (looks st), store := rows',
                              trace := trace st @ [Processed app]\<rparr>
                 in if apps \<noteq> []
                    then (case sleep env appInterval st' of
                            (Stop e, st'') \<Rightarrow> Return (Stop e, st'')
                          | (Next, st'') \<Rightarrow> processApps w env c appInterval apps st'')
                    else processApps w env c appInterval apps st')))"

text \<open>One turn of the outer \<open>for\<close> loop.\<close>

definition cycle ::
  "Worker \<Rightarrow> sched_env \<Rightarrow> nat \<Rightarrow> int \<Rightarrow> sched_state \<Rightarrow> (step \<times> sched_state) outcome" where
  "cycle w env c appInterval st =
     (if ctxDone env (looks st)
      then Return (Stop (Some (ctxError env)), st\<lparr>looks := Suc (looks st)\<rparr>)
      else (let st' = st\<lparr>looks := Suc (looks st), trace := trace st @ [Listed]\<rparr>
            in case allApps env c of
                 Inl err \<Rightarrow> Return (sleep env appInterval st')
               | Inr apps \<Rightarrow>
                   (if length apps = 0 then Return (sleep env appInterval st')
                    else (case processApps w env c appInterval apps st' of
                            Return (Next, st'') \<Rightarrow> Return (sleep env appInterval st'')
                          | other \<Rightarrow> other))))"

text \<open>
  The outer loop, for at most \<open>fuel\<close> turns: \<open>Pending\<close> says the loop is still running
  after them.
\<close>

fun startLoop ::
  "nat \<Rightarrow> Worker \<Rightarrow> sched_env \<Rightarrow> nat \<Rightarrow> int \<Rightarrow> sched_state
     \<Rightarrow> (error option \<times> sched_state) outcome" where
  "startLoop 0 w env c appInterval st = Pending"
| "startLoop (Suc fuel) w env c appInterval st =
     (case cycle w env c appInterval st of
        Pending \<Rightarrow> Pending
      | Panic s \<Rightarrow> Panic s
      | Return (Stop e, st') \<Rightarrow> Return (e, st')
      | Return (Next, st') \<Rightarrow> startLoop fuel w env (Suc c) appInterval st')"

definition Start ::
  "nat \<Rightarrow> Worker \<Rightarrow> sched_env \<Rightarrow> sched_state \<Rightarrow> (error option \<times> sched_state) outcome" where
  "Start fuel w env st =
     (if \<not> Enabled (cfg w) then Return (None, st)
      else (let appInterval = Duration (AppInterval (cfg w) * Minute)
            in startLoop fuel w env 0 appInterval st))"

text \<open>
  The schedule, stated on its own. \<open>between d apps\<close>: each application, with an
  interval between two of them. \<open>cycleActions d listing\<close>: the log of a cycle that runs
  to its end, where \<open>listing\<close> is what \<open>GetAllApps\<close> returned: the listing, then for an
  error or an empty list one interval, else the applications and the interval before the
  next cycle. \<open>cycleLooks listing\<close>: how often such a cycle looks at the context.
  \<open>actionsFrom d env c m\<close> and \<open>looksFrom env c m\<close>: the same for the \<open>m\<close> cycles
  from cycle \<open>c\<close> on.
\<close>

fun between :: "int \<Rightarrow> App list \<Rightarrow> action list" where
  "between d [] = []"
| "between d [app] = [Processed app]"
| "between d (app # apps) = Processed app # Slept d # between d apps"






section \<open>Predicates on the deployments table\<close>

text \<open>
  \<open>recorded rows appID name\<close>: the table has a row for the deployment.
  \<open>recordedAs rows appID name status msg\<close>: it has one, and every such row carries the
  status and the message.
\<close>

definition recorded :: "Deployment list \<Rightarrow> int \<Rightarrow> string \<Rightarrow> bool" where
  "recorded rows appID name = (\<exists>d\<in>set rows. AppID d = appID \<and> DeploymentName d = name)"

definition recordedAs :: "Deployment list \<Rightarrow> int \<Rightarrow> string \<Rightarrow> string \<Rightarrow> string \<Rightarrow> bool" where
  "recordedAs rows appID name status msg =
     ((\<exists>d\<in>set rows. AppID d = appID \<and> DeploymentName d = name)
      \<and> (\<forall>d\<in>set rows. AppID d = appID \<and> DeploymentName d = name
            \<longrightarrow> Status d = status \<and> VerificationMsg d = Some msg))"

text \<open>The key of a row, and the columns a conflicting insert overwrites.\<close>

definition sameKey :: "int \<Rightarrow> string \<Rightarrow> Deployment \<Rightarrow> bool" where
  "sameKey a n d = (AppID d = a \<and> DeploymentName d = n)"

definition written :: "string \<Rightarrow> string \<Rightarrow> string \<Rightarrow> Deployment \<Rightarrow> Deployment" where
  "written sha s m d = d\<lparr>CommitSHA := Some sha, Status := s, VerificationMsg := Some m\<rparr>"

section \<open>Verified properties: status aggregation\<close>


lemma processDeployments_eq:
  "processDeployments deps m os =
     ((case filter (\<lambda>d. DeploymentName d = ''mainnet'') deps of
         [] \<Rightarrow> m | ms \<Rightarrow> Some (deploymentStatus (last ms))),
      os @ map deploymentStatus (filter (\<lambda>d. DeploymentName d \<noteq> ''mainnet'') deps))"
proof (induction deps arbitrary: m os)
  case Nil
  then show ?case by simp
next
  case (Cons d deps)
  then show ?case by (simp split: list.splits)
qed

lemma scanVerified_found:
  "\<exists>d\<in>set os. dsStatus d = StatusVerified \<Longrightarrow> scanVerified os agg = StatusVerified"
  by (induction os) auto

lemma scanVerified_none:
  "\<forall>d\<in>set os. dsStatus d \<noteq> StatusVerified \<Longrightarrow> scanVerified os agg = agg"
  by (induction os) auto

lemma aggregatedStatus_mainnet_last:
  assumes "filter (\<lambda>d. DeploymentName d = ''mainnet'') deps \<noteq> []"
  shows "aggregatedStatus deps = Status (last (filter (\<lambda>d. DeploymentName d = ''mainnet'') deps))"
  using assms
  by (simp add: aggregatedStatus_def processDeployments_eq deploymentStatus_def split: list.splits)

lemma aggregatedStatus_no_mainnet:
  assumes "\<forall>d\<in>set deps. DeploymentName d \<noteq> ''mainnet''"
  shows "aggregatedStatus deps =
     (if deps = [] then ''pending''
      else if \<exists>d\<in>set deps. Status d = StatusVerified then StatusVerified
      else Status (hd deps))"
proof -
  have f1: "filter (\<lambda>d. DeploymentName d = ''mainnet'') deps = []"
    using assms by (simp add: filter_empty_conv)
  have f2: "filter (\<lambda>d. DeploymentName d \<noteq> ''mainnet'') deps = deps"
    using assms by simp
  have pd: "processDeployments deps None [] = (None, map deploymentStatus deps)"
    by (simp add: processDeployments_eq f1 f2)
  show ?thesis
  proof (cases "deps = []")
    case True
    then show ?thesis by (simp add: aggregatedStatus_def)
  next
    case ne: False
    show ?thesis
    proof (cases "\<exists>d\<in>set deps. Status d = StatusVerified")
      case True
      then have "\<exists>d\<in>set (map deploymentStatus deps). dsStatus d = StatusVerified"
        by (auto simp: deploymentStatus_def)
      from scanVerified_found[OF this] ne True show ?thesis
        by (simp add: aggregatedStatus_def pd Let_def)
    next
      case False
      then have "\<forall>d\<in>set (map deploymentStatus deps). dsStatus d \<noteq> StatusVerified"
        by (auto simp: deploymentStatus_def)
      from scanVerified_none[OF this] ne False show ?thesis
        by (simp add: aggregatedStatus_def pd Let_def StatusVerified_def hd_conv_nth deploymentStatus_def)
    qed
  qed
qed

lemma mainnet_filter_unique:
  assumes "d \<in> set deps" "DeploymentName d = n" "distinct (map DeploymentName deps)"
  shows "filter (\<lambda>d. DeploymentName d = n) deps = [d]"
  using assms
proof (induction deps)
  case Nil then show ?case by simp
next
  case (Cons a deps)
  show ?case
  proof (cases "a = d")
    case True
    with Cons.prems have "\<forall>x\<in>set deps. DeploymentName x \<noteq> n" by (auto simp: image_iff)
    then have "filter (\<lambda>d. DeploymentName d = n) deps = []" by (simp add: filter_empty_conv)
    with True Cons.prems show ?thesis by simp
  next
    case False
    with Cons.prems have "d \<in> set deps" by simp
    moreover from Cons.prems this have "DeploymentName a \<noteq> n" by force
    ultimately show ?thesis using Cons by simp
  qed
qed

text \<open>
  C1. When the deployments of an application (whose names are unique, by the table's
  constraint) contain one named "mainnet", the aggregated status is that deployment's
  status, whatever the other deployments say.
\<close>

theorem mainnet_status_authoritative:
  assumes "d \<in> set deployments" and "DeploymentName d = ''mainnet''"
    and "distinct (map DeploymentName deployments)"
  shows "aggregatedStatus deployments = Status d"
  using aggregatedStatus_mainnet_last[of deployments] mainnet_filter_unique[OF assms(1,2,3)]
  by simp

lemma query_names_distinct:
  assumes "uniqueDeployments rows"
  shows "distinct (map DeploymentName (GetDeploymentsByAppID rows appID))"
proof -
  have "distinct (map (\<lambda>d. (AppID d, DeploymentName d)) (filter (\<lambda>d. AppID d = appID) rows))"
    using assms unfolding uniqueDeployments_def by (simp add: distinct_map_filter)
  then have "distinct (map DeploymentName (filter (\<lambda>d. AppID d = appID) rows))"
    by (auto simp: distinct_map inj_on_def)
  then have "distinct (map DeploymentName (sort_key DeploymentName (filter (\<lambda>d. AppID d = appID) rows)))"
    by (metis distinct_map distinct_sort set_sort)
  then show ?thesis by (simp add: GetDeploymentsByAppID_def)
qed

lemma query_sorted: "sorted (map DeploymentName (GetDeploymentsByAppID rows appID))"
  by (simp add: GetDeploymentsByAppID_def)

lemma query_set: "set (GetDeploymentsByAppID rows appID) = {d \<in> set rows. AppID d = appID}"
  by (auto simp add: GetDeploymentsByAppID_def)

lemma sorted_least_is_hd:
  assumes "sorted (map f xs)" "distinct (map f xs)" "d \<in> set xs" "\<forall>x\<in>set xs. f d \<le> f x"
  shows "hd xs = d"
proof (cases xs)
  case Nil with assms show ?thesis by simp
next
  case (Cons a as)
  with assms have "f a \<le> f d" by auto
  moreover from Cons assms have "f d \<le> f a" by auto
  ultimately have "f a = f d" by simp
  with assms Cons show ?thesis by (auto simp: distinct_map inj_on_def)
qed

text \<open>
  C2. For the deployments the handlers pass to \<open>renderAppCard\<close> (the rows of one
  application, as the query returns them), when none is named "mainnet": if one is
  verified the aggregate is "verified"; if none is, the aggregate is the status of the
  deployment whose name is least; with no deployment at all it is "pending".
\<close>

theorem aggregate_without_mainnet:
  assumes "uniqueDeployments rows"
    and "deps = GetDeploymentsByAppID rows appID"
    and "\<forall>d\<in>set deps. DeploymentName d \<noteq> ''mainnet''"
  shows "((\<exists>d\<in>set deps. Status d = StatusVerified) \<longrightarrow> aggregatedStatus deps = StatusVerified)
       \<and> ((\<forall>d\<in>set deps. Status d \<noteq> StatusVerified) \<longrightarrow>
            (\<forall>d\<in>set deps. (\<forall>d'\<in>set deps. DeploymentName d \<le> DeploymentName d')
                 \<longrightarrow> aggregatedStatus deps = Status d))
       \<and> (deps = [] \<longrightarrow> aggregatedStatus deps = StatusPending)"
proof (intro conjI impI ballI)
  assume "\<exists>d\<in>set deps. Status d = StatusVerified"
  then show "aggregatedStatus deps = StatusVerified"
    using aggregatedStatus_no_mainnet[OF assms(3)] by auto
next
  fix d
  assume nv: "\<forall>d\<in>set deps. Status d \<noteq> StatusVerified" and d: "d \<in> set deps"
    and least: "\<forall>d'\<in>set deps. DeploymentName d \<le> DeploymentName d'"
  have "hd deps = d"
    using sorted_least_is_hd[of DeploymentName deps d] query_sorted[of rows appID]
      query_names_distinct[OF assms(1), of appID] d least assms(2) by simp
  then show "aggregatedStatus deps = Status d"
    using aggregatedStatus_no_mainnet[OF assms(3)] nv d by auto
next
  assume "deps = []"
  then show "aggregatedStatus deps = StatusPending"
    by (simp add: aggregatedStatus_def StatusPending_def)
qed


theorem mainnet_status_authoritative_witness:
  "aggregatedStatus
     [\<lparr>ID = 1, AppID = 7, DeploymentName = ''mainnet'', CommitSHA = None,
        Status = ''failed'', VerificationMsg = Some ''Failed to poll results''\<rparr>,
      \<lparr>ID = 2, AppID = 7, DeploymentName = ''testnet'', CommitSHA = Some ''abc123'',
        Status = ''verified'', VerificationMsg = None\<rparr>] = ''failed''"
  using mainnet_status_authoritative
    [of "\<lparr>ID = 1, AppID = 7, DeploymentName = ''mainnet'', CommitSHA = None,
           Status = ''failed'', VerificationMsg = Some ''Failed to poll results''\<rparr>"
        "[\<lparr>ID = 1, AppID = 7, DeploymentName = ''mainnet'', CommitSHA = None,
            Status = ''failed'', VerificationMsg = Some ''Failed to poll results''\<rparr>,
          \<lparr>ID = 2, AppID = 7, DeploymentName = ''testnet'', CommitSHA = Some ''abc123'',
            Status = ''verified'', VerificationMsg = None\<rparr>]"]
  by simp

theorem aggregate_without_mainnet_witness:
  "aggregatedStatus (GetDeploymentsByAppID
     [\<lparr>ID = 1, AppID = 7, DeploymentName = ''testnet'', CommitSHA = None,
        Status = ''failed'', VerificationMsg = None\<rparr>,
      \<lparr>ID = 2, AppID = 7, DeploymentName = ''devnet'', CommitSHA = None,
        Status = ''pending'', VerificationMsg = None\<rparr>,
      \<lparr>ID = 3, AppID = 8, DeploymentName = ''mainnet'', CommitSHA = None,
        Status = ''verified'', VerificationMsg = None\<rparr>] 7) = ''pending''"
proof -
  define dev where "dev = \<lparr>ID = 2, AppID = 7, DeploymentName = ''devnet'', CommitSHA = None,
        Status = ''pending'', VerificationMsg = None\<rparr>"
  define rows where "rows = [\<lparr>ID = 1, AppID = 7, DeploymentName = ''testnet'', CommitSHA = None,
        Status = ''failed'', VerificationMsg = None\<rparr>, dev,
      \<lparr>ID = 3, AppID = 8, DeploymentName = ''mainnet'', CommitSHA = None,
        Status = ''verified'', VerificationMsg = None\<rparr>]"
  define deps where "deps = GetDeploymentsByAppID rows 7"
  have deps_eq: "deps = [dev, \<lparr>ID = 1, AppID = 7, DeploymentName = ''testnet'', CommitSHA = None,
        Status = ''failed'', VerificationMsg = None\<rparr>]"
    by (simp add: deps_def rows_def dev_def GetDeploymentsByAppID_def)
  have u: "uniqueDeployments rows"
    by (simp add: uniqueDeployments_def rows_def dev_def)
  have nm: "\<forall>d\<in>set deps. DeploymentName d \<noteq> ''mainnet''"
    by (simp add: deps_eq dev_def)
  have nv: "\<forall>d\<in>set deps. Status d \<noteq> StatusVerified"
    by (simp add: deps_eq dev_def StatusVerified_def)
  have least: "\<forall>d'\<in>set deps. DeploymentName dev \<le> DeploymentName d'"
    by (simp add: deps_eq dev_def)
  have mem: "dev \<in> set deps" by (simp add: deps_eq)
  have "aggregatedStatus deps = Status dev"
    using aggregate_without_mainnet[OF u deps_def nm] nv mem least by blast
  then have "aggregatedStatus deps = ''pending''" by (simp add: dev_def)
  then show ?thesis by (simp add: deps_def rows_def dev_def)
qed

section \<open>Verified properties: diagnostics\<close>

lemma Contains_iff_sublist: "Contains s substr \<longleftrightarrow> sublist substr s"
proof (induction s)
  case Nil
  then show ?case by simp
next
  case (Cons c s)
  then show ?case by (simp add: sublist_Cons_right)
qed

lemma fieldsLoop_words:
  assumes "w \<in> set (fieldsLoop cur skip s)" and "skip > 0 \<longrightarrow> cur = []"
  shows "(\<exists>p. prefix p s \<and> w = cur @ p) \<or> sublist w s"
  using assms
proof (induction cur skip s rule: fieldsLoop.induct)
  case (1 cur skip)
  then show ?case by (auto split: if_splits)
next
  case (2 cur skip c s)
  show ?case
  proof (cases "skip > 0")
    case True
    with 2 have "cur = []" and "w \<in> set (fieldsLoop cur (skip - 1) s)" by auto
    with 2(1)[OF True] have "(\<exists>p. prefix p s \<and> w = cur @ p) \<or> sublist w s" by simp
    with \<open>cur = []\<close> have "sublist w s" by auto
    then show ?thesis by (simp add: sublist_Cons_right)
  next
    case nskip: False
    show ?thesis
    proof (cases "spaceWidth (c # s) > 0")
      case sp: True
      show ?thesis
      proof (cases "cur = []")
        case True
        with 2(5) nskip sp have "w \<in> set (fieldsLoop [] (spaceWidth (c # s) - 1) s)" by simp
        with 2(2)[OF nskip sp True] have "(\<exists>p. prefix p s \<and> w = [] @ p) \<or> sublist w s" by simp
        then have "sublist w s" by auto
        then show ?thesis by (simp add: sublist_Cons_right)
      next
        case False
        with 2(5) nskip sp have "w = cur \<or> w \<in> set (fieldsLoop [] (spaceWidth (c # s) - 1) s)"
          by simp
        then show ?thesis
        proof
          assume "w = cur"
          then have "prefix [] (c # s) \<and> w = cur @ []" by simp
          then show ?thesis by blast
        next
          assume "w \<in> set (fieldsLoop [] (spaceWidth (c # s) - 1) s)"
          with 2(3)[OF nskip sp False] have "(\<exists>p. prefix p s \<and> w = [] @ p) \<or> sublist w s" by simp
          then have "sublist w s" by auto
          then show ?thesis by (simp add: sublist_Cons_right)
        qed
      qed
    next
      case nsp: False
      with 2(5) nskip have "w \<in> set (fieldsLoop (cur @ [c]) 0 s)" by simp
      with 2(4)[OF nskip nsp] have "(\<exists>p. prefix p s \<and> w = (cur @ [c]) @ p) \<or> sublist w s" by simp
      then show ?thesis
      proof
        assume "\<exists>p. prefix p s \<and> w = (cur @ [c]) @ p"
        then obtain p where "prefix p s" "w = (cur @ [c]) @ p" by blast
        then have "prefix (c # p) (c # s) \<and> w = cur @ (c # p)" by simp
        then show ?thesis by blast
      next
        assume "sublist w s"
        then show ?thesis by (simp add: sublist_Cons_right)
      qed
    qed
  qed
qed

lemma Fields_sublist: "w \<in> set (Fields line) \<Longrightarrow> sublist w line"
  using fieldsLoop_words[of w "[]" 0 line] by (auto simp: Fields_def)

lemma no_rofl1_no_tokens:
  assumes "\<not> Contains line ''rofl1''"
  shows "filter (\<lambda>w. prefix ''rofl1'' w \<and> length w > 10) (Fields line) = []"
proof -
  have "\<not> prefix ''rofl1'' w" if "w \<in> set (Fields line)" for w
  proof
    assume "prefix ''rofl1'' w"
    then have "sublist ''rofl1'' w" by (rule prefix_imp_sublist)
    moreover have "sublist w line" using that by (rule Fields_sublist)
    ultimately have "sublist ''rofl1'' line" by (rule sublist_order.order.trans)
    with assms show False by (simp add: Contains_iff_sublist)
  qed
  then show ?thesis by (simp add: filter_empty_conv)
qed

lemma collectWords_eq:
  "collectWords words ids =
     ids @ map (\<lambda>w. TrimRight w '',.;:'')
             (filter (\<lambda>w. prefix ''rofl1'' w \<and> length w > 10) words)"
  by (induction words arbitrary: ids) (simp_all add: HasPrefix_def)

lemma scanLine_eq:
  "scanLine line ids =
     ids @ lineTokens line @ (if rescanned line then lineTokens line else [])"
proof (cases "Contains line ''rofl1''")
  case True
  then show ?thesis
    by (simp add: scanLine_def Let_def collectWords_eq lineTokens_def rescanned_def)
next
  case False
  then have "lineTokens line = []" by (simp add: lineTokens_def no_rofl1_no_tokens)
  with False show ?thesis by (simp add: scanLine_def Let_def)
qed

lemma scanLines_eq:
  "scanLines lines ids =
     ids @ concat (map (\<lambda>l. lineTokens l @ (if rescanned l then lineTokens l else [])) lines)"
  by (induction lines arbitrary: ids) (simp_all add: scanLine_eq)

lemma remdups_snoc: "remdups (ys @ [x]) = remdups (filter (\<lambda>y. y \<noteq> x) ys) @ [x]"
  by (induction ys) auto

lemma remdups_absorb: "set xs \<subseteq> set zs \<Longrightarrow> remdups (xs @ zs) = remdups zs"
  by (induction xs) auto

lemma firstAppearance_Cons:
  "firstAppearance (x # xs) = x # firstAppearance (filter (\<lambda>y. y \<noteq> x) xs)"
proof -
  have "remdups (rev xs @ [x]) = remdups (filter (\<lambda>y. y \<noteq> x) (rev xs)) @ [x]"
    by (rule remdups_snoc)
  then show ?thesis by (simp add: firstAppearance_def rev_filter)
qed

lemma removeDuplicates_eq:
  "removeDuplicates ids seen unique = unique @ firstAppearance (filter (\<lambda>x. \<not> seen x) ids)"
proof (induction ids arbitrary: seen unique)
  case Nil
  then show ?case by (simp add: firstAppearance_def)
next
  case (Cons x ids)
  show ?case
  proof (cases "seen x")
    case True
    then show ?thesis by (simp add: Cons)
  next
    case False
    have "filter (\<lambda>y. y \<noteq> x) (filter (\<lambda>y. \<not> seen y) ids) = filter (\<lambda>y. \<not> (seen(x := True)) y) ids"
      by (induction ids) auto
    with False show ?thesis by (simp add: Cons firstAppearance_Cons)
  qed
qed

lemma remdups_cong_tail:
  assumes "remdups ys = remdups zs"
  shows "remdups (xs @ ys) = remdups (xs @ zs)"
proof -
  have "remdups (xs @ ys) = remdups (xs @ remdups ys)" by (simp only: remdups_append2)
  also have "\<dots> = remdups (xs @ remdups zs)" by (simp only: assms)
  also have "\<dots> = remdups (xs @ zs)" by (simp only: remdups_append2)
  finally show ?thesis .
qed

lemma remdups_rescan:
  "remdups (concat (map (\<lambda>l. if b l then f l @ f l else f l) ls)) = remdups (concat (map f ls))"
proof (induction ls)
  case Nil
  then show ?case by simp
next
  case (Cons l ls)
  let ?rest = "concat (map (\<lambda>l. if b l then f l @ f l else f l) ls)"
  have "remdups (concat (map (\<lambda>l. if b l then f l @ f l else f l) (l # ls)))
      = remdups (f l @ ?rest)"
    using remdups_absorb[of "f l" "f l @ ?rest"] by simp
  also have "\<dots> = remdups (f l @ concat (map f ls))"
    using Cons by (rule remdups_cong_tail)
  finally show ?case by simp
qed

lemma firstAppearance_rescan:
  "firstAppearance (concat (map (\<lambda>l. f l @ (if b l then f l else [])) ls))
     = firstAppearance (concat (map f ls))"
proof -
  have "rev (concat (map (\<lambda>l. f l @ (if b l then f l else [])) ls))
      = concat (map (\<lambda>l. if b l then rev (f l) @ rev (f l) else rev (f l)) (rev ls))"
    by (simp add: rev_concat rev_map comp_def if_distrib cong: if_cong)
  moreover have "rev (concat (map f ls)) = concat (map (\<lambda>l. rev (f l)) (rev ls))"
    by (simp add: rev_concat rev_map comp_def)
  ultimately show ?thesis
    using remdups_rescan[of b "\<lambda>l. rev (f l)" "rev ls"] by (simp add: firstAppearance_def)
qed

lemma parseMismatchedIDs_eq:
  "parseMismatchedIDs output = firstAppearance (enclaveTokens output)"
  by (simp add: parseMismatchedIDs_def scanLines_eq removeDuplicates_eq
      firstAppearance_rescan enclaveTokens_def)

lemma appendIDs_eq:
  "appendIDs msg ids = msg @ concat (map (\<lambda>ident. ''  - '' @ ident @ [newline]) ids)"
  by (induction ids arbitrary: msg) simp_all

text \<open>
  C9. When the backend's error text indicates a mismatch (it contains "exit status 1" or
  "command"), the message is the header, then, if the combined output
  (stderr, a newline, stdout) holds enclave-identity tokens, the heading
  "Mismatched Enclave IDs:" with one line per token, without repetitions and in the order
  of first appearance, then the hint. Otherwise a non-empty error text is returned as it
  is, and an empty one gives the generic message.
\<close>

theorem formatVerificationError_message:
  "formatVerificationError result =
     (if Contains (Err result) ''exit status 1'' \<or> Contains (Err result) ''command''
      then mismatchHeader
             @ idSection (rev (remdups (rev (enclaveTokens (Stderr result @ [newline] @ Stdout result)))))
             @ mismatchHint
      else if Err result \<noteq> [] then Err result
      else ''Verification failed: enclave measurements do not match'')"
  by (simp add: formatVerificationError_def Let_def parseMismatchedIDs_eq appendIDs_eq
      idSection_def firstAppearance_def)

theorem formatVerificationError_message_witness:
  "formatVerificationError
     \<lparr>resStatus = [], Verified = False, resCommitSHA = [],
      Stdout = ''expected rofl1qqqqqqqqqqqq; got rofl1pppppppppppp'',
      Stderr = ''mismatch: rofl1pppppppppppp.'' @ [newline] @ ''see rofl1abc'',
      Err = ''exit status 1''\<rparr>
   = mismatchHeader @ ''Mismatched Enclave IDs:'' @ [newline]
       @ ''  - rofl1pppppppppppp'' @ [newline]
       @ ''  - rofl1qqqqqqqqqqqq'' @ [newline] @ [newline] @ mismatchHint"
  by (subst formatVerificationError_message) code_simp

section \<open>Verified properties: the session manager\<close>



lemma authenticate_Inr:
  assumes "authenticate a message sig ex = (Inr tok, cs)"
  shows "\<exists>body. decoded ex = Inr body \<and> statusCode ex = StatusOK \<and> Token body = tok \<and> tok \<noteq> []
            \<and> EqualFold (Address body) (address a)"
  using assms
  by (auto simp: authenticate_def Let_def split: option.splits if_splits sum.splits)

lemma performSIWELogin_Inr:
  assumes "performSIWELogin a env = (Inr tok, cs)"
  shows "\<exists>body. decoded (loginExchange env) = Inr body \<and> Token body = tok \<and> tok \<noteq> []
            \<and> EqualFold (Address body) (address a)"
proof -
  from assms obtain msg sig cs' where "authenticate a msg sig (loginExchange env) = (Inr tok, cs')"
    by (auto simp: performSIWELogin_def split: prod.splits sum.splits)
  from authenticate_Inr[OF this] show ?thesis by blast
qed

lemma performSIWELogin_calls: "performSIWELogin a env = (Inr tok, []) \<Longrightarrow> False"
  by (auto simp: performSIWELogin_def getNonce_def Let_def
        split: prod.splits sum.splits option.splits if_splits)

lemma afterOthers_address: "address (afterOthers a other) = address a"
  by (simp add: afterOthers_def split: option.splits prod.splits)

text \<open>
  C8. When the login reply is a success with a token, and the address it echoes differs
  from the session's address in more than the case of its letters, \<open>authenticate\<close>
  fails with the address-mismatch error; a \<open>GetToken\<close> that needed the handshake then
  fails as well and leaves the cache as it found it. Whenever \<open>authenticate\<close> returns
  a token, the echoed address matches the session's address up to case.
\<close>

theorem authenticate_address_check:
  "(newRequestErr ex = None \<and> sendErr ex = None \<and> statusCode ex = StatusOK
      \<and> decoded ex = Inr body \<and> Token body \<noteq> []
      \<and> \<not> EqualFold (Address body) (address a)
     \<longrightarrow> fst (authenticate a message sig ex)
           = Inl (ErrorString (''address mismatch: expected '' @ address a @ '', got '' @ Address body)))
   \<and> (decoded (loginExchange env) = Inr body \<and> \<not> EqualFold (Address body) (address a)
        \<and> \<not> (token a \<noteq> [] \<and> now1 + 5 * Minute < exp a)
        \<and> \<not> (token (afterOthers a other) \<noteq> [] \<and> now2 + 5 * Minute < exp (afterOthers a other))
     \<longrightarrow> (\<exists>e cs. GetToken a now1 other now2 now3 env = (Inl e, afterOthers a other, cs)))
   \<and> (fst (authenticate a message sig ex) = Inr tok
     \<longrightarrow> (\<exists>b. decoded ex = Inr b \<and> Token b = tok \<and> EqualFold (Address b) (address a)))"
proof (intro conjI impI)
  assume "newRequestErr ex = None \<and> sendErr ex = None \<and> statusCode ex = StatusOK
      \<and> decoded ex = Inr body \<and> Token body \<noteq> [] \<and> \<not> EqualFold (Address body) (address a)"
  then show "fst (authenticate a message sig ex)
           = Inl (ErrorString (''address mismatch: expected '' @ address a @ '', got '' @ Address body))"
    by (simp add: authenticate_def Let_def)
next
  define a' where "a' = afterOthers a other"
  assume h: "decoded (loginExchange env) = Inr body \<and> \<not> EqualFold (Address body) (address a)
        \<and> \<not> (token a \<noteq> [] \<and> now1 + 5 * Minute < exp a)
        \<and> \<not> (token (afterOthers a other) \<noteq> [] \<and> now2 + 5 * Minute < exp (afterOthers a other))"
  obtain r cs where p: "performSIWELogin a' env = (r, cs)" by (cases "performSIWELogin a' env")
  have adr: "address a' = address a" by (simp add: a'_def afterOthers_address)
  have "\<exists>e. r = Inl e"
  proof (cases r)
    case (Inl e) then show ?thesis by simp
  next
    case (Inr tok)
    with p performSIWELogin_Inr[of a' env tok cs] h adr show ?thesis by auto
  qed
  then obtain e where "r = Inl e" ..
  moreover from h have "\<not> (token a \<noteq> [] \<and> now1 + 5 * Minute < exp a)"
    and "\<not> (token a' \<noteq> [] \<and> now2 + 5 * Minute < exp a')" unfolding a'_def by blast+
  ultimately have "GetToken a now1 other now2 now3 env
       = (Inl (Wrapped ''failed to perform SIWE login: '' e), a', cs)"
    using p unfolding GetToken_def Let_def a'_def[symmetric]
    by (simp only: if_False prod.case sum.case)
  then show "\<exists>e cs. GetToken a now1 other now2 now3 env = (Inl e, afterOthers a other, cs)"
    unfolding a'_def by blast
next
  assume "fst (authenticate a message sig ex) = Inr tok"
  then obtain cs where "authenticate a message sig ex = (Inr tok, cs)"
    by (cases "authenticate a message sig ex") auto
  from authenticate_Inr[OF this]
  show "\<exists>b. decoded ex = Inr b \<and> Token b = tok \<and> EqualFold (Address b) (address a)" by blast
qed

text \<open>
  C5, as the code has it. A cached token with more than five minutes left before its
  recorded expiry is returned as it is, and nothing is sent: the one the first check
  finds, or else the one the second check finds (another caller stored it in between).
  When neither check finds one the handshake runs, and its token is stored with an
  expiry eleven hours after the store, whatever the backend's lifetime is. A token
  returned without any request is a cached one that had more than five minutes left
  at its check; a token returned after requests is the one now cached, with that
  expiry.
\<close>

theorem GetToken_cache_policy:
  "(token a \<noteq> [] \<and> now1 + 5 * Minute < exp a
      \<longrightarrow> GetToken a now1 other now2 now3 env = (Inr (token a), a, []))
   \<and> (\<not> (token a \<noteq> [] \<and> now1 + 5 * Minute < exp a)
        \<and> token (afterOthers a other) \<noteq> [] \<and> now2 + 5 * Minute < exp (afterOthers a other)
      \<longrightarrow> GetToken a now1 other now2 now3 env
            = (Inr (token (afterOthers a other)), afterOthers a other, []))
   \<and> (\<not> (token a \<noteq> [] \<and> now1 + 5 * Minute < exp a)
        \<and> \<not> (token (afterOthers a other) \<noteq> []
               \<and> now2 + 5 * Minute < exp (afterOthers a other))
      \<longrightarrow> GetToken a now1 other now2 now3 env =
           (case performSIWELogin (afterOthers a other) env of
              (Inl e, cs) \<Rightarrow>
                (Inl (Wrapped ''failed to perform SIWE login: '' e), afterOthers a other, cs)
            | (Inr tok, cs) \<Rightarrow>
                (Inr tok, (afterOthers a other)\<lparr>token := tok, exp := now3 + 11 * Hour\<rparr>, cs)))
   \<and> (GetToken a now1 other now2 now3 env = (Inr tok, b, cs) \<and> cs \<noteq> []
      \<longrightarrow> b = (afterOthers a other)\<lparr>token := tok, exp := now3 + 11 * Hour\<rparr>
          \<and> performSIWELogin (afterOthers a other) env = (Inr tok, cs))
   \<and> (GetToken a now1 other now2 now3 env = (Inr tok, b, [])
      \<longrightarrow> (b = a \<and> tok = token a \<and> token a \<noteq> [] \<and> now1 + 5 * Minute < exp a)
          \<or> (b = afterOthers a other \<and> tok = token b \<and> token b \<noteq> []
               \<and> now2 + 5 * Minute < exp b))"
proof -
  define a' where "a' = afterOthers a other"
  have p1: "token a \<noteq> [] \<and> now1 + 5 * Minute < exp a
      \<longrightarrow> GetToken a now1 other now2 now3 env = (Inr (token a), a, [])"
    by (simp add: GetToken_def)
  have p2: "\<not> (token a \<noteq> [] \<and> now1 + 5 * Minute < exp a)
        \<and> token a' \<noteq> [] \<and> now2 + 5 * Minute < exp a'
      \<longrightarrow> GetToken a now1 other now2 now3 env = (Inr (token a'), a', [])"
  proof
    assume h: "\<not> (token a \<noteq> [] \<and> now1 + 5 * Minute < exp a)
        \<and> token a' \<noteq> [] \<and> now2 + 5 * Minute < exp a'"
    then have s1: "\<not> (token a \<noteq> [] \<and> now1 + 5 * Minute < exp a)"
      and f2: "token a' \<noteq> [] \<and> now2 + 5 * Minute < exp a'" by blast+
    show "GetToken a now1 other now2 now3 env = (Inr (token a'), a', [])"
      unfolding GetToken_def Let_def a'_def[symmetric]
      using s1 f2 by auto
  qed
  have p3: "\<not> (token a \<noteq> [] \<and> now1 + 5 * Minute < exp a)
        \<and> \<not> (token a' \<noteq> [] \<and> now2 + 5 * Minute < exp a')
      \<longrightarrow> GetToken a now1 other now2 now3 env =
           (case performSIWELogin a' env of
              (Inl e, cs) \<Rightarrow> (Inl (Wrapped ''failed to perform SIWE login: '' e), a', cs)
            | (Inr tok, cs) \<Rightarrow> (Inr tok, a'\<lparr>token := tok, exp := now3 + 11 * Hour\<rparr>, cs))"
  proof
    assume h: "\<not> (token a \<noteq> [] \<and> now1 + 5 * Minute < exp a)
        \<and> \<not> (token a' \<noteq> [] \<and> now2 + 5 * Minute < exp a')"
    then have s1: "\<not> (token a \<noteq> [] \<and> now1 + 5 * Minute < exp a)"
      and s2: "\<not> (token a' \<noteq> [] \<and> now2 + 5 * Minute < exp a')" by blast+
    show "GetToken a now1 other now2 now3 env =
           (case performSIWELogin a' env of
              (Inl e, cs) \<Rightarrow> (Inl (Wrapped ''failed to perform SIWE login: '' e), a', cs)
            | (Inr tok, cs) \<Rightarrow> (Inr tok, a'\<lparr>token := tok, exp := now3 + 11 * Hour\<rparr>, cs))"
      unfolding GetToken_def Let_def a'_def[symmetric]
      by (simp only: s1 s2 if_False)
  qed
  have p4: "GetToken a now1 other now2 now3 env = (Inr tok, b, cs) \<and> cs \<noteq> []
      \<longrightarrow> b = a'\<lparr>token := tok, exp := now3 + 11 * Hour\<rparr>
          \<and> performSIWELogin a' env = (Inr tok, cs)"
  proof
    assume g: "GetToken a now1 other now2 now3 env = (Inr tok, b, cs) \<and> cs \<noteq> []"
    show "b = a'\<lparr>token := tok, exp := now3 + 11 * Hour\<rparr>
          \<and> performSIWELogin a' env = (Inr tok, cs)"
    proof (cases "token a \<noteq> [] \<and> now1 + 5 * Minute < exp a")
      case True
      with g p1 show ?thesis by auto
    next
      case s1: False
      show ?thesis
      proof (cases "token a' \<noteq> [] \<and> now2 + 5 * Minute < exp a'")
        case True
        with g p2 s1 show ?thesis by auto
      next
        case s2: False
        from s1 s2 p3 have "GetToken a now1 other now2 now3 env =
           (case performSIWELogin a' env of
              (Inl e, cs) \<Rightarrow> (Inl (Wrapped ''failed to perform SIWE login: '' e), a', cs)
            | (Inr tok, cs) \<Rightarrow> (Inr tok, a'\<lparr>token := tok, exp := now3 + 11 * Hour\<rparr>, cs))"
          by blast
        with g show ?thesis by (auto split: prod.splits sum.splits)
      qed
    qed
  qed
  have p5: "GetToken a now1 other now2 now3 env = (Inr tok, b, [])
      \<longrightarrow> (b = a \<and> tok = token a \<and> token a \<noteq> [] \<and> now1 + 5 * Minute < exp a)
          \<or> (b = a' \<and> tok = token b \<and> token b \<noteq> [] \<and> now2 + 5 * Minute < exp b)"
  proof
    assume g: "GetToken a now1 other now2 now3 env = (Inr tok, b, [])"
    show "(b = a \<and> tok = token a \<and> token a \<noteq> [] \<and> now1 + 5 * Minute < exp a)
          \<or> (b = a' \<and> tok = token b \<and> token b \<noteq> [] \<and> now2 + 5 * Minute < exp b)"
    proof (cases "token a \<noteq> [] \<and> now1 + 5 * Minute < exp a")
      case True
      with g p1 show ?thesis by auto
    next
      case s1: False
      show ?thesis
      proof (cases "token a' \<noteq> [] \<and> now2 + 5 * Minute < exp a'")
        case True
        with g p2 s1 show ?thesis by auto
      next
        case s2: False
        from s1 s2 p3 have "GetToken a now1 other now2 now3 env =
           (case performSIWELogin a' env of
              (Inl e, cs) \<Rightarrow> (Inl (Wrapped ''failed to perform SIWE login: '' e), a', cs)
            | (Inr tok, cs) \<Rightarrow> (Inr tok, a'\<lparr>token := tok, exp := now3 + 11 * Hour\<rparr>, cs))"
          by blast
        with g have "performSIWELogin a' env = (Inr tok, [])"
          by (auto split: prod.splits sum.splits)
        then have False by (rule performSIWELogin_calls)
        then show ?thesis ..
      qed
    qed
  qed
  from p1 p2 p3 p4 p5 show ?thesis unfolding a'_def by (intro conjI)
qed

text \<open>
  C5 as stated fails: \<open>GetToken\<close> never learns the backend's lifetime. With a backend
  whose tokens live one hour, the token obtained at the instant 0 is recorded as
  expiring at eleven hours, and a call two hours later returns it from the cache
  without a handshake, an hour after the backend has stopped accepting it.
\<close>

theorem GetToken_lifetime_counterexample:
  "GetToken \<lparr>backendURL = ''http://backend'', address = ''0xAbCdEf'', siweDomain = ''localhost'',
        chainID = 23295, token = [], exp = 0\<rparr> 0 None 0 0
       \<lparr>nonceExchange = \<lparr>newRequestErr = None, sendErr = None, statusCode = 200,
            decoded = Inr ''n0nce123''\<rparr>,
        siweMessage = (\<lambda>n. Inr (''sign in '' @ n)), signature = (\<lambda>m. Inr ''sg''),
        loginExchange = \<lparr>newRequestErr = None, sendErr = None, statusCode = 200,
            decoded = Inr \<lparr>Token = ''t1'', Address = ''0xabcdef''\<rparr>\<rparr>,
        tokenLifetime = 1 * Hour\<rparr>
     = (Inr ''t1'', \<lparr>backendURL = ''http://backend'', address = ''0xAbCdEf'',
          siweDomain = ''localhost'', chainID = 23295, token = ''t1'', exp = 11 * Hour\<rparr>,
        [NonceRequest ''http://backend/auth/nonce?address=0xAbCdEf'',
         LoginRequest ''http://backend/auth/login?sig=0x7367'' ''sign in n0nce123''])
   \<and> \<not> (11 * Hour \<le> 0 + tokenLifetime
       \<lparr>nonceExchange = \<lparr>newRequestErr = None, sendErr = None, statusCode = 200,
            decoded = Inr ''n0nce123''\<rparr>,
        siweMessage = (\<lambda>n. Inr (''sign in '' @ n)), signature = (\<lambda>m. Inr ''sg''),
        loginExchange = \<lparr>newRequestErr = None, sendErr = None, statusCode = 200,
            decoded = Inr \<lparr>Token = ''t1'', Address = ''0xabcdef''\<rparr>\<rparr>,
        tokenLifetime = 1 * Hour\<rparr>)
   \<and> GetToken \<lparr>backendURL = ''http://backend'', address = ''0xAbCdEf'', siweDomain = ''localhost'',
        chainID = 23295, token = ''t1'', exp = 11 * Hour\<rparr> (2 * Hour) None (2 * Hour) (2 * Hour)
       \<lparr>nonceExchange = \<lparr>newRequestErr = None, sendErr = None, statusCode = 200,
            decoded = Inr ''n0nce123''\<rparr>,
        siweMessage = (\<lambda>n. Inr (''sign in '' @ n)), signature = (\<lambda>m. Inr ''sg''),
        loginExchange = \<lparr>newRequestErr = None, sendErr = None, statusCode = 200,
            decoded = Inr \<lparr>Token = ''t2'', Address = ''0xabcdef''\<rparr>\<rparr>,
        tokenLifetime = 1 * Hour\<rparr>
     = (Inr ''t1'', \<lparr>backendURL = ''http://backend'', address = ''0xAbCdEf'',
          siweDomain = ''localhost'', chainID = 23295, token = ''t1'', exp = 11 * Hour\<rparr>, [])"
  by code_simp

lemma EqualFold_example: "EqualFold ''0xabcde0'' ''0xAbCdEf'' = False"
  by code_simp


lemma performSIWELogin_example: "performSIWELogin \<lparr>backendURL = ''http://backend'', address = ''0xAbCdEf'',
        siweDomain = ''localhost'', chainID = 23295, token = ''t0'', exp = 5 * Minute\<rparr> \<lparr>nonceExchange = \<lparr>newRequestErr = None, sendErr = None, statusCode = 200,
            decoded = Inr ''n0nce123''\<rparr>,
        siweMessage = (\<lambda>n. Inr (''sign in '' @ n)), signature = (\<lambda>m. Inr ''sg''),
        loginExchange = \<lparr>newRequestErr = None, sendErr = None, statusCode = 200,
            decoded = Inr \<lparr>Token = ''t1'', Address = ''0xabcdef''\<rparr>\<rparr>,
        tokenLifetime = 12 * Hour\<rparr> = (Inr ''t1'',
        [NonceRequest ''http://backend/auth/nonce?address=0xAbCdEf'',
         LoginRequest ''http://backend/auth/login?sig=0x7367'' ''sign in n0nce123''])"
  by code_simp

theorem GetToken_cache_policy_witness:
  "GetToken \<lparr>backendURL = ''http://backend'', address = ''0xAbCdEf'', siweDomain = ''localhost'',
        chainID = 23295, token = ''t0'', exp = 10 * Minute\<rparr> 0 None 1 2
       \<lparr>nonceExchange = \<lparr>newRequestErr = None, sendErr = None, statusCode = 200,
            decoded = Inr ''n0nce123''\<rparr>,
        siweMessage = (\<lambda>n. Inr (''sign in '' @ n)), signature = (\<lambda>m. Inr ''sg''),
        loginExchange = \<lparr>newRequestErr = None, sendErr = None, statusCode = 200,
            decoded = Inr \<lparr>Token = ''t1'', Address = ''0xabcdef''\<rparr>\<rparr>,
        tokenLifetime = 12 * Hour\<rparr>
     = (Inr ''t0'', \<lparr>backendURL = ''http://backend'', address = ''0xAbCdEf'',
          siweDomain = ''localhost'', chainID = 23295, token = ''t0'', exp = 10 * Minute\<rparr>, [])
   \<and> GetToken \<lparr>backendURL = ''http://backend'', address = ''0xAbCdEf'', siweDomain = ''localhost'',
        chainID = 23295, token = ''t0'', exp = 5 * Minute\<rparr> 0 (Some (''t9'', 9 * Hour)) 1 2
       \<lparr>nonceExchange = \<lparr>newRequestErr = None, sendErr = None, statusCode = 200,
            decoded = Inr ''n0nce123''\<rparr>,
        siweMessage = (\<lambda>n. Inr (''sign in '' @ n)), signature = (\<lambda>m. Inr ''sg''),
        loginExchange = \<lparr>newRequestErr = None, sendErr = None, statusCode = 200,
            decoded = Inr \<lparr>Token = ''t1'', Address = ''0xabcdef''\<rparr>\<rparr>,
        tokenLifetime = 12 * Hour\<rparr>
     = (Inr ''t9'', \<lparr>backendURL = ''http://backend'', address = ''0xAbCdEf'',
          siweDomain = ''localhost'', chainID = 23295, token = ''t9'', exp = 9 * Hour\<rparr>, [])
   \<and> GetToken \<lparr>backendURL = ''http://backend'', address = ''0xAbCdEf'', siweDomain = ''localhost'',
        chainID = 23295, token = ''t0'', exp = 5 * Minute\<rparr> 0 None 1 2
       \<lparr>nonceExchange = \<lparr>newRequestErr = None, sendErr = None, statusCode = 200,
            decoded = Inr ''n0nce123''\<rparr>,
        siweMessage = (\<lambda>n. Inr (''sign in '' @ n)), signature = (\<lambda>m. Inr ''sg''),
        loginExchange = \<lparr>newRequestErr = None, sendErr = None, statusCode = 200,
            decoded = Inr \<lparr>Token = ''t1'', Address = ''0xabcdef''\<rparr>\<rparr>,
        tokenLifetime = 12 * Hour\<rparr>
     = (Inr ''t1'', \<lparr>backendURL = ''http://backend'', address = ''0xAbCdEf'',
          siweDomain = ''localhost'', chainID = 23295, token = ''t1'', exp = 2 + 11 * Hour\<rparr>,
        [NonceRequest ''http://backend/auth/nonce?address=0xAbCdEf'',
         LoginRequest ''http://backend/auth/login?sig=0x7367'' ''sign in n0nce123''])"
proof -
  define env where "env = \<lparr>nonceExchange = \<lparr>newRequestErr = None, sendErr = None, statusCode = 200,
            decoded = Inr ''n0nce123''\<rparr>,
        siweMessage = (\<lambda>n. Inr (''sign in '' @ n)), signature = (\<lambda>m. Inr ''sg''),
        loginExchange = \<lparr>newRequestErr = None, sendErr = None, statusCode = 200,
            decoded = Inr \<lparr>Token = ''t1'', Address = ''0xabcdef''\<rparr>\<rparr>,
        tokenLifetime = 12 * Hour\<rparr>"
  define a1 where "a1 = \<lparr>backendURL = ''http://backend'', address = ''0xAbCdEf'',
        siweDomain = ''localhost'', chainID = 23295, token = ''t0'', exp = 10 * Minute\<rparr>"
  define a2 where "a2 = \<lparr>backendURL = ''http://backend'', address = ''0xAbCdEf'',
        siweDomain = ''localhost'', chainID = 23295, token = ''t0'', exp = 5 * Minute\<rparr>"
  define a9 where "a9 = \<lparr>backendURL = ''http://backend'', address = ''0xAbCdEf'',
        siweDomain = ''localhost'', chainID = 23295, token = ''t9'', exp = 9 * Hour\<rparr>"
  have o9: "afterOthers a2 (Some (''t9'', 9 * Hour)) = a9"
    by (simp add: afterOthers_def a2_def a9_def)
  have o0: "afterOthers a2 None = a2" by (simp add: afterOthers_def)
  have fresh: "token a1 \<noteq> [] \<and> 0 + 5 * Minute < exp a1"
    by (simp add: a1_def Minute_def Second_def)
  have stale: "\<not> (token a2 \<noteq> [] \<and> 0 + 5 * Minute < exp a2)"
    by (simp add: a2_def)
  have stale2: "\<not> (token a2 \<noteq> [] \<and> 1 + 5 * Minute < exp a2)"
    by (simp add: a2_def)
  have fresh9: "token a9 \<noteq> [] \<and> 1 + 5 * Minute < exp a9"
    by (simp add: a9_def Hour_def Minute_def Second_def)
  have login: "performSIWELogin a2 env = (Inr ''t1'',
        [NonceRequest ''http://backend/auth/nonce?address=0xAbCdEf'',
         LoginRequest ''http://backend/auth/login?sig=0x7367'' ''sign in n0nce123''])"
    unfolding a2_def env_def by (rule performSIWELogin_example)
  have c1: "GetToken a1 0 None 1 2 env = (Inr (token a1), a1, [])"
    by (rule mp[OF conjunct1[OF GetToken_cache_policy] fresh])
  have h2: "\<not> (token a2 \<noteq> [] \<and> 0 + 5 * Minute < exp a2)
        \<and> token (afterOthers a2 (Some (''t9'', 9 * Hour))) \<noteq> []
        \<and> 1 + 5 * Minute < exp (afterOthers a2 (Some (''t9'', 9 * Hour)))"
    unfolding o9 using stale fresh9 by blast
  have c2: "GetToken a2 0 (Some (''t9'', 9 * Hour)) 1 2 env = (Inr (token a9), a9, [])"
    using mp[OF conjunct1[OF conjunct2[OF GetToken_cache_policy]] h2, of 2 env]
    unfolding o9 .
  have h3: "\<not> (token a2 \<noteq> [] \<and> 0 + 5 * Minute < exp a2)
        \<and> \<not> (token (afterOthers a2 None) \<noteq> [] \<and> 1 + 5 * Minute < exp (afterOthers a2 None))"
    unfolding o0 using stale stale2 by blast
  have c3: "GetToken a2 0 None 1 2 env = (Inr ''t1'', a2\<lparr>token := ''t1'', exp := 2 + 11 * Hour\<rparr>,
        [NonceRequest ''http://backend/auth/nonce?address=0xAbCdEf'',
         LoginRequest ''http://backend/auth/login?sig=0x7367'' ''sign in n0nce123''])"
    using mp[OF conjunct1[OF conjunct2[OF conjunct2[OF GetToken_cache_policy]]] h3, of 2 env]
    unfolding o0 by (simp only: login prod.case sum.case)
  have tok1: "token a1 = ''t0''" by (simp add: a1_def)
  have tok9: "token a9 = ''t9''" by (simp add: a9_def)
  from c1 c2 c3 show ?thesis unfolding tok1 tok9 unfolding a1_def a2_def a9_def env_def
    by (simp only: simp_thms AuthClient.simps)
qed

theorem authenticate_address_check_witness:
  "fst (authenticate \<lparr>backendURL = ''http://backend'', address = ''0xAbCdEf'',
          siweDomain = ''localhost'', chainID = 23295, token = [], exp = 0\<rparr> ''sign in n0nce123'' ''sg''
        \<lparr>newRequestErr = None, sendErr = None, statusCode = 200,
            decoded = Inr \<lparr>Token = ''t1'', Address = ''0xabcde0''\<rparr>\<rparr>)
     = Inl (ErrorString ''address mismatch: expected 0xAbCdEf, got 0xabcde0'')"
proof -
  define a where "a = \<lparr>backendURL = ''http://backend'', address = ''0xAbCdEf'',
          siweDomain = ''localhost'', chainID = 23295, token = [], exp = 0\<rparr>"
  define body where "body = \<lparr>Token = ''t1'', Address = ''0xabcde0''\<rparr>"
  define ex where "ex = \<lparr>newRequestErr = None, sendErr = None, statusCode = 200,
            decoded = Inr body\<rparr>"
  have h: "newRequestErr ex = None \<and> sendErr ex = None \<and> statusCode ex = StatusOK
      \<and> decoded ex = Inr body \<and> Token body \<noteq> []
      \<and> \<not> EqualFold (Address body) (address a)"
    by (simp add: ex_def body_def a_def StatusOK_def EqualFold_example)
  have "fst (authenticate a ''sign in n0nce123'' ''sg'' ex)
           = Inl (ErrorString (''address mismatch: expected '' @ address a @ '', got '' @ Address body))"
    by (rule mp[OF conjunct1[OF authenticate_address_check] h])
  then show ?thesis unfolding a_def body_def ex_def by simp
qed

section \<open>Verified properties: polling\<close>

lemma pollLoop_in_progress:
  assumes "\<forall>ev\<in>set pre. inProgress w deadline ev"
  shows "pollLoop w ctxErr deadline (pre @ rest) n = pollLoop w ctxErr deadline rest (n + length pre)"
  using assms
proof (induction pre arbitrary: n)
  case Nil
  then show ?case by simp
next
  case (Cons ev pre)
  then obtain now env where ev: "ev = Tick now env" by (cases ev) auto
  with Cons.prems have "now \<le> deadline" and "checkResults w env = Inr (None, StatusAccepted)"
    by auto
  with ev Cons show ?case by (simp add: StatusOK_def StatusAccepted_def)
qed

lemma pollLoop_pending:
  assumes "\<forall>ev\<in>set pre. inProgress w deadline ev"
  shows "pollLoop w ctxErr deadline pre n = Pending"
  using pollLoop_in_progress[OF assms, of ctxErr "[]" n] by simp











section \<open>Verified properties: submission failures\<close>

lemma submitVerification_Inr:
  assumes "submitVerification w url ref name env = Inr tid"
  shows "newRequestErr (http env) = None \<and> sendErr (http env) = None
       \<and> statusCode (http env) = StatusOK \<and> (\<exists>result. decoded (http env) = Inr result \<and> TaskID result = tid)"
  using assms
  by (auto simp: submitVerification_def split: option.splits sum.splits if_splits)

lemma Upsert_fail:
  "UpsertDeployment rows a n sha s m (Inl err)
     = (Some (Wrapped ''failed to upsert deployment: '' err), rows)"
  by (simp add: UpsertDeployment_def)

lemma written_simps:
  "sameKey a n (written sha s m d) = sameKey a n d"
  "Status (written sha s m d) = s"
  "VerificationMsg (written sha s m d) = Some m"
  by (simp_all add: sameKey_def written_def)

lemma Upsert_rows:
  assumes "UpsertDeployment rows a n sha s m (Inr rid) = (e, rows')"
  shows "e = None"
    and "(\<exists>d\<in>set rows. sameKey a n d) \<Longrightarrow>
           rows' = map (\<lambda>d. if sameKey a n d then written sha s m d else d) rows"
    and "\<not> (\<exists>d\<in>set rows. sameKey a n d) \<Longrightarrow>
           \<exists>new. rows' = rows @ [new] \<and> sameKey a n new \<and> Status new = s
                 \<and> VerificationMsg new = Some m"
  using assms by (auto simp: UpsertDeployment_def sameKey_def written_def)

lemma Upsert_mem:
  assumes "UpsertDeployment rows a n sha s m (Inr rid) = (e, rows')" and "d' \<in> set rows'"
  shows "(\<exists>d\<in>set rows. d' = (if sameKey a n d then written sha s m d else d))
       \<or> (sameKey a n d' \<and> Status d' = s \<and> VerificationMsg d' = Some m)"
proof (cases "\<exists>d\<in>set rows. sameKey a n d")
  case True
  from Upsert_rows(2)[OF assms(1) True] assms(2)
  obtain d where "d \<in> set rows" "d' = (if sameKey a n d then written sha s m d else d)"
    by auto
  then show ?thesis by blast
next
  case False
  from Upsert_rows(3)[OF assms(1) False] obtain new where
    new: "rows' = rows @ [new]" "sameKey a n new" "Status new = s" "VerificationMsg new = Some m"
    by blast
  with assms(2) have "d' \<in> set rows \<or> d' = new" by auto
  then show ?thesis
  proof
    assume m: "d' \<in> set rows"
    with False have "\<not> sameKey a n d'" by blast
    then have "d' = (if sameKey a n d' then written sha s m d' else d')" by simp
    with m show ?thesis by blast
  next
    assume "d' = new"
    with new show ?thesis by simp
  qed
qed

lemma Upsert_mem_conv:
  assumes "UpsertDeployment rows a n sha s m (Inr rid) = (e, rows')" and "d \<in> set rows"
  shows "(if sameKey a n d then written sha s m d else d) \<in> set rows'"
proof (cases "\<exists>d\<in>set rows. sameKey a n d")
  case True
  from Upsert_rows(2)[OF assms(1) True] assms(2) show ?thesis by simp
next
  case False
  from Upsert_rows(3)[OF assms(1) False] obtain new where new: "rows' = rows @ [new]" by blast
  from False assms(2) have "\<not> sameKey a n d" by blast
  with new assms(2) show ?thesis by simp
qed

lemma Upsert_new:
  assumes "UpsertDeployment rows a n sha s m (Inr rid) = (e, rows')"
  shows "\<exists>d\<in>set rows'. sameKey a n d"
proof (cases "\<exists>d\<in>set rows. sameKey a n d")
  case True
  then obtain d where d: "d \<in> set rows" "sameKey a n d" by blast
  from Upsert_mem_conv[OF assms d(1)] d(2) have "written sha s m d \<in> set rows'" by simp
  moreover have "sameKey a n (written sha s m d)" using d(2) by (simp add: written_simps)
  ultimately show ?thesis by blast
next
  case False
  from Upsert_rows(3)[OF assms False] show ?thesis by auto
qed

lemma recordedAs_sameKey:
  "recordedAs rows a n s m =
     ((\<exists>d\<in>set rows. sameKey a n d)
      \<and> (\<forall>d\<in>set rows. sameKey a n d \<longrightarrow> Status d = s \<and> VerificationMsg d = Some m))"
  by (simp add: recordedAs_def sameKey_def)

lemma recorded_sameKey: "recorded rows a n = (\<exists>d\<in>set rows. sameKey a n d)"
  by (simp add: recorded_def sameKey_def)

lemma Upsert_recordedAs:
  assumes "UpsertDeployment rows a n sha s m (Inr rid) = (e, rows')"
  shows "recordedAs rows' a n s m"
proof -
  have "Status d' = s \<and> VerificationMsg d' = Some m"
    if "d' \<in> set rows'" "sameKey a n d'" for d'
  proof -
    from Upsert_mem[OF assms that(1)] show ?thesis
    proof
      assume "\<exists>d\<in>set rows. d' = (if sameKey a n d then written sha s m d else d)"
      then obtain d where d: "d' = (if sameKey a n d then written sha s m d else d)" by blast
      show ?thesis
      proof (cases "sameKey a n d")
        case True
        with d show ?thesis by (simp add: written_simps)
      next
        case False
        with d that(2) show ?thesis by simp
      qed
    next
      assume "sameKey a n d' \<and> Status d' = s \<and> VerificationMsg d' = Some m"
      then show ?thesis by simp
    qed
  qed
  with Upsert_new[OF assms] show ?thesis unfolding recordedAs_sameKey by blast
qed

lemma sameKey_other: "sameKey a n d \<Longrightarrow> n' \<noteq> n \<Longrightarrow> \<not> sameKey a n' d"
  by (simp add: sameKey_def)

lemma written_other: "sameKey a' n' (written sha s m d) = sameKey a' n' d"
  by (simp add: sameKey_def written_def)

lemma Upsert_other_recordedAs:
  assumes "UpsertDeployment rows a n sha s m x = (e, rows')" and "n' \<noteq> n"
    and "recordedAs rows a n' s' m'"
  shows "recordedAs rows' a n' s' m'"
proof (cases x)
  case (Inl err)
  with assms(1) have "rows' = rows" by (simp add: Upsert_fail)
  with assms(3) show ?thesis by simp
next
  case (Inr rid)
  note up = assms(1)[unfolded Inr]
  from assms(3) obtain d where d: "d \<in> set rows" "sameKey a n' d"
    unfolding recordedAs_sameKey by blast
  from d(2) assms(2) have "\<not> sameKey a n d" by (auto simp: sameKey_def)
  with Upsert_mem_conv[OF up d(1)] have "d \<in> set rows'" by simp
  with d(2) have ex: "\<exists>d\<in>set rows'. sameKey a n' d" by blast
  have "Status d' = s' \<and> VerificationMsg d' = Some m'"
    if "d' \<in> set rows'" "sameKey a n' d'" for d'
  proof -
    from that(2) assms(2) have nk: "\<not> sameKey a n d'" by (auto simp: sameKey_def)
    from Upsert_mem[OF up that(1)] nk
    obtain d0 where d0: "d0 \<in> set rows" "d' = (if sameKey a n d0 then written sha s m d0 else d0)"
      by blast
    have "\<not> sameKey a n d0"
    proof
      assume "sameKey a n d0"
      with d0(2) have "sameKey a n d'" by (simp add: written_simps)
      with nk show False by simp
    qed
    with d0 have "d' \<in> set rows" by simp
    with assms(3) that(2) show ?thesis unfolding recordedAs_sameKey by blast
  qed
  with ex show ?thesis unfolding recordedAs_sameKey by blast
qed

lemma Upsert_keeps_recorded:
  assumes "UpsertDeployment rows a n sha s m x = (e, rows')" and "recorded rows a' n'"
  shows "recorded rows' a' n'"
proof (cases x)
  case (Inl err)
  with assms(1) have "rows' = rows" by (simp add: Upsert_fail)
  with assms(2) show ?thesis by simp
next
  case (Inr rid)
  note up = assms(1)[unfolded Inr]
  from assms(2) obtain d where d: "d \<in> set rows" "sameKey a' n' d"
    unfolding recorded_sameKey by blast
  let ?d = "if sameKey a n d then written sha s m d else d"
  from Upsert_mem_conv[OF up d(1)] have "?d \<in> set rows'" .
  moreover from d(2) have "sameKey a' n' ?d" by (simp add: written_other)
  ultimately show ?thesis unfolding recorded_sameKey by blast
qed

lemma Upsert_recorded:
  "UpsertDeployment rows a n sha s m (Inr rid) = (e, rows') \<Longrightarrow> recorded rows' a n"
  by (drule Upsert_new) (simp add: recorded_sameKey)


lemma verifyDeployment_upsert:
  assumes "verifyDeployment w ctxErr rows app n env = Return (e, rows')"
  shows "\<exists>sha s m e'. UpsertDeployment rows (App_ID app) n sha s m (upsertExec env) = (e', rows')"
proof (cases "submitVerification w (GitHubURL app) (GitRef app) n (submitEnv env)")
  case (Inl err)
  with assms show ?thesis
    by (auto simp: verifyDeployment_def split: prod.splits)
next
  case (Inr taskID)
  show ?thesis
  proof (cases "pollResults w ctxErr (pollStart env) (pollEvents env)")
    case (Return r)
    obtain res k where r: "r = (res, k)" by (cases r)
    show ?thesis
    proof (cases res)
      case (Inl err)
      with assms Inr Return r show ?thesis
        by (auto simp: verifyDeployment_def split: prod.splits)
    next
      case (Inr ro)
      show ?thesis
      proof (cases ro)
        case None
        with assms \<open>submitVerification w (GitHubURL app) (GitRef app) n (submitEnv env) = Inr taskID\<close>
          Return r Inr show ?thesis by (simp add: verifyDeployment_def)
      next
        case (Some result)
        with assms \<open>submitVerification w (GitHubURL app) (GitRef app) n (submitEnv env) = Inr taskID\<close>
          Return r Inr show ?thesis
          by (auto simp: verifyDeployment_def Let_def split: prod.splits option.splits)
      qed
    qed
  next
    case (Panic x)
    with assms Inr show ?thesis by (simp add: verifyDeployment_def)
  next
    case Pending
    with assms Inr show ?thesis by (simp add: verifyDeployment_def)
  qed
qed

lemma verifyDeployment_submit_fail:
  assumes "submitVerification w (GitHubURL app) (GitRef app) n (submitEnv env) = Inl err"
    and "upsertExec env = Inr rid"
  shows "\<exists>rows'. verifyDeployment w ctxErr rows app n env
              = Return (Some (Wrapped ''failed to submit verification: '' err), rows')
          \<and> recordedAs rows' (App_ID app) n ''failed''
               (''Failed to submit verification: '' @ Error err)"
proof -
  obtain e rows' where up: "UpsertDeployment rows (App_ID app) n [] ''failed''
      (''Failed to submit verification: '' @ Error err) (Inr rid) = (e, rows')"
    by (cases "UpsertDeployment rows (App_ID app) n [] ''failed''
      (''Failed to submit verification: '' @ Error err) (Inr rid)")
  from Upsert_recordedAs[OF up] have "recordedAs rows' (App_ID app) n ''failed''
               (''Failed to submit verification: '' @ Error err)" .
  moreover have "verifyDeployment w ctxErr rows app n env
              = Return (Some (Wrapped ''failed to submit verification: '' err), rows')"
    using assms up by (simp add: verifyDeployment_def)
  ultimately show ?thesis by blast
qed

lemma verifyDeployments_append:
  assumes "verifyDeployments w ctxErr rows app pre envs l = Return (e1, rows1)"
  shows "verifyDeployments w ctxErr rows app (pre @ rest) envs l
           = verifyDeployments w ctxErr rows1 app rest envs e1"
  using assms
proof (induction pre arbitrary: rows l)
  case Nil
  then show ?case by simp
next
  case (Cons m pre)
  show ?case
  proof (cases "verifyDeployment w ctxErr rows app m (envs m)")
    case (Return r)
    obtain e rows' where r: "r = (e, rows')" by (cases r)
    show ?thesis
    proof (cases e)
      case None
      with Cons.prems Return r have
        "verifyDeployments w ctxErr rows' app pre envs l = Return (e1, rows1)" by simp
      from Cons.IH[OF this] Return r None show ?thesis by simp
    next
      case (Some err)
      with Cons.prems Return r have
        "verifyDeployments w ctxErr rows' app pre envs (Some err) = Return (e1, rows1)" by simp
      from Cons.IH[OF this] Return r Some show ?thesis by simp
    qed
  next
    case (Panic x)
    with Cons.prems show ?thesis by simp
  next
    case Pending
    with Cons.prems show ?thesis by simp
  qed
qed

lemma verifyDeployments_returns:
  assumes "\<forall>m\<in>set names. \<forall>rows. \<exists>r. verifyDeployment w ctxErr rows app m (envs m) = Return r"
  shows "\<exists>e rows'. verifyDeployments w ctxErr rows app names envs l = Return (e, rows')
            \<and> (l \<noteq> None \<longrightarrow> e \<noteq> None)"
  using assms
proof (induction names arbitrary: rows l)
  case Nil
  then show ?case by simp
next
  case (Cons m names)
  from Cons.prems obtain e rows1 where
    v: "verifyDeployment w ctxErr rows app m (envs m) = Return (e, rows1)"
    by (metis list.set_intros(1) surj_pair)
  from Cons.prems have tot: "\<forall>m\<in>set names. \<forall>rows.
      \<exists>r. verifyDeployment w ctxErr rows app m (envs m) = Return r" by simp
  show ?case
  proof (cases e)
    case None
    with v Cons.IH[OF tot, of rows1 l] show ?thesis by simp
  next
    case (Some err)
    from Cons.IH[OF tot, of rows1 "Some err"] obtain e2 rows2 where
      "verifyDeployments w ctxErr rows1 app names envs (Some err) = Return (e2, rows2)"
      "e2 \<noteq> None" by auto
    with v Some show ?thesis by auto
  qed
qed

lemma verifyDeployments_invariant:
  assumes "verifyDeployments w ctxErr rows app names envs l = Return (e, rows'')"
    and "P rows"
    and "\<And>m rows e' rows'. m \<in> set names \<Longrightarrow> P rows \<Longrightarrow>
           verifyDeployment w ctxErr rows app m (envs m) = Return (e', rows') \<Longrightarrow> P rows'"
  shows "P rows''"
  using assms
proof (induction names arbitrary: rows l)
  case Nil
  then show ?case by simp
next
  case (Cons m names)
  show ?case
  proof (cases "verifyDeployment w ctxErr rows app m (envs m)")
    case (Return r)
    obtain e' rows' where r: "r = (e', rows')" by (cases r)
    from Cons.prems(3)[of m rows e' rows'] Cons.prems(2) Return r have P': "P rows'" by simp
    have step: "\<And>m rows e' rows'. m \<in> set names \<Longrightarrow> P rows \<Longrightarrow>
           verifyDeployment w ctxErr rows app m (envs m) = Return (e', rows') \<Longrightarrow> P rows'"
      using Cons.prems(3) by (meson list.set_intros(2))
    show ?thesis
    proof (cases e')
      case None
      with Cons.prems(1) Return r have
        "verifyDeployments w ctxErr rows' app names envs l = Return (e, rows'')" by simp
      from Cons.IH[OF this P' step] show ?thesis by simp
    next
      case (Some err)
      with Cons.prems(1) Return r have
        "verifyDeployments w ctxErr rows' app names envs (Some err) = Return (e, rows'')" by simp
      from Cons.IH[OF this P' step] show ?thesis by simp
    qed
  next
    case (Panic x)
    with Cons.prems(1) show ?thesis by simp
  next
    case Pending
    with Cons.prems(1) show ?thesis by simp
  qed
qed

lemma verifyDeployments_keeps_recordedAs:
  assumes "verifyDeployments w ctxErr rows app names envs l = Return (e, rows'')"
    and "n \<notin> set names" and "recordedAs rows (App_ID app) n s msg"
  shows "recordedAs rows'' (App_ID app) n s msg"
proof (rule verifyDeployments_invariant[OF assms(1), where P = "\<lambda>r. recordedAs r (App_ID app) n s msg"])
  show "recordedAs rows (App_ID app) n s msg" by (rule assms(3))
next
  fix m rs e' rs'
  assume m: "m \<in> set names" and P: "recordedAs rs (App_ID app) n s msg"
    and v: "verifyDeployment w ctxErr rs app m (envs m) = Return (e', rs')"
  from m assms(2) have "n \<noteq> m" by blast
  from verifyDeployment_upsert[OF v] obtain sha s0 m0 e0 where
    "UpsertDeployment rs (App_ID app) m sha s0 m0 (upsertExec (envs m)) = (e0, rs')" by blast
  from Upsert_other_recordedAs[OF this \<open>n \<noteq> m\<close> P]
  show "recordedAs rs' (App_ID app) n s msg" .
qed

lemma verifyDeployments_keeps_recorded:
  assumes "verifyDeployments w ctxErr rows app names envs l = Return (e, rows'')"
    and "recorded rows a n"
  shows "recorded rows'' a n"
proof (rule verifyDeployments_invariant[OF assms(1), where P = "\<lambda>r. recorded r a n"])
  show "recorded rows a n" by (rule assms(2))
next
  fix m rs e' rs'
  assume P: "recorded rs a n"
    and v: "verifyDeployment w ctxErr rs app m (envs m) = Return (e', rs')"
  from verifyDeployment_upsert[OF v] obtain sha s0 m0 e0 where
    "UpsertDeployment rs (App_ID app) m sha s0 m0 (upsertExec (envs m)) = (e0, rs')" by blast
  from Upsert_keeps_recorded[OF this P] show "recorded rs' a n" .
qed

lemma verifyDeployments_records:
  assumes "verifyDeployments w ctxErr rows app names envs l = Return (e, rows'')"
    and "m \<in> set names" and "upsertExec (envs m) = Inr rid"
  shows "recorded rows'' (App_ID app) m"
  using assms
proof (induction names arbitrary: rows l)
  case Nil
  then show ?case by simp
next
  case (Cons x names)
  show ?case
  proof (cases "verifyDeployment w ctxErr rows app x (envs x)")
    case (Return r)
    obtain e' rows' where r: "r = (e', rows')" by (cases r)
    obtain l' where rest: "verifyDeployments w ctxErr rows' app names envs l' = Return (e, rows'')"
      using Cons.prems(1) Return r by (cases e') auto
    show ?thesis
    proof (cases "m = x")
      case True
      from verifyDeployment_upsert[OF Return[unfolded r]] obtain sha s0 m0 e0 where
        "UpsertDeployment rows (App_ID app) x sha s0 m0 (upsertExec (envs x)) = (e0, rows')" by blast
      with True Cons.prems(3) have "recorded rows' (App_ID app) m"
        using Upsert_recorded by simp
      from verifyDeployments_keeps_recorded[OF rest this] show ?thesis .
    next
      case False
      with Cons.prems(2) have "m \<in> set names" by simp
      from Cons.IH[OF rest this Cons.prems(3)] show ?thesis .
    qed
  next
    case (Panic x)
    with Cons.prems(1) show ?thesis by simp
  next
    case Pending
    with Cons.prems(1) show ?thesis by simp
  qed
qed

lemma verifyDeployment_submit_fail_eq:
  assumes "submitVerification w (GitHubURL app) (GitRef app) n (submitEnv env) = Inl err"
  shows "verifyDeployment w ctxErr rows app n env
           = Return (Some (Wrapped ''failed to submit verification: '' err),
               snd (UpsertDeployment rows (App_ID app) n [] ''failed''
                      (''Failed to submit verification: '' @ Error err) (upsertExec env)))"
  using assms by (simp add: verifyDeployment_def split: prod.splits)

lemma verifyDeployments_failure:
  assumes "distinct names" and "n \<in> set names"
    and "\<forall>m\<in>set names. \<forall>rows. \<exists>r. verifyDeployment w ctxErr rows app m (envs m) = Return r"
    and "submitVerification w (GitHubURL app) (GitRef app) n (submitEnv (envs n)) = Inl err"
  shows "\<exists>e rows''. verifyDeployments w ctxErr rows app names envs None = Return (Some e, rows'')
          \<and> ((\<exists>rid. upsertExec (envs n) = Inr rid)
               \<longrightarrow> recordedAs rows'' (App_ID app) n ''failed''
                     (''Failed to submit verification: '' @ Error err))
          \<and> (\<forall>m\<in>set names. (\<exists>rid. upsertExec (envs m) = Inr rid)
               \<longrightarrow> recorded rows'' (App_ID app) m)"
proof -
  from assms(2) obtain pre post where sp: "names = pre @ n # post"
    by (meson split_list)
  with assms(1) have npost: "n \<notin> set post" by simp
  from assms(3) sp have totpre: "\<forall>m\<in>set pre. \<forall>rows.
      \<exists>r. verifyDeployment w ctxErr rows app m (envs m) = Return r" by simp
  from assms(3) sp have totpost: "\<forall>m\<in>set post. \<forall>rows.
      \<exists>r. verifyDeployment w ctxErr rows app m (envs m) = Return r" by simp
  from verifyDeployments_returns[OF totpre, of rows None] obtain e1 rows1 where
    p1: "verifyDeployments w ctxErr rows app pre envs None = Return (e1, rows1)" by blast
  define rows2 where "rows2 = snd (UpsertDeployment rows1 (App_ID app) n [] ''failed''
                      (''Failed to submit verification: '' @ Error err) (upsertExec (envs n)))"
  have p2: "verifyDeployment w ctxErr rows1 app n (envs n)
           = Return (Some (Wrapped ''failed to submit verification: '' err), rows2)"
    unfolding rows2_def by (rule verifyDeployment_submit_fail_eq[OF assms(4)])
  from verifyDeployments_returns[OF totpost, of rows2
      "Some (Wrapped ''failed to submit verification: '' err)"] obtain e3 rows3 where
    p3: "verifyDeployments w ctxErr rows2 app post envs
           (Some (Wrapped ''failed to submit verification: '' err)) = Return (e3, rows3)"
      "e3 \<noteq> None" by blast
  then obtain e where e3: "e3 = Some e" by blast
  have whole: "verifyDeployments w ctxErr rows app names envs None = Return (Some e, rows3)"
    using verifyDeployments_append[OF p1, of "n # post"] p2 p3(1) e3 sp by simp
  have rec: "(\<exists>rid. upsertExec (envs n) = Inr rid)
               \<longrightarrow> recordedAs rows3 (App_ID app) n ''failed''
                     (''Failed to submit verification: '' @ Error err)"
  proof
    assume "\<exists>rid. upsertExec (envs n) = Inr rid"
    then obtain rid where ok: "upsertExec (envs n) = Inr rid" ..
    from verifyDeployment_submit_fail[OF assms(4) ok, of ctxErr rows1] p2
    have "recordedAs rows2 (App_ID app) n ''failed''
               (''Failed to submit verification: '' @ Error err)" by simp
    from verifyDeployments_keeps_recordedAs[OF p3(1) npost this]
    show "recordedAs rows3 (App_ID app) n ''failed''
               (''Failed to submit verification: '' @ Error err)" .
  qed
  have allrec: "\<forall>m\<in>set names. (\<exists>rid. upsertExec (envs m) = Inr rid)
                  \<longrightarrow> recorded rows3 (App_ID app) m"
    using verifyDeployments_records[OF whole] by blast
  from whole rec allrec show ?thesis by blast
qed

section \<open>Verified properties: the verification loop\<close>

lemma sleep_Next:
  "\<not> ctxDone env (looks st) \<Longrightarrow>
     sleep env d st = (Next, st\<lparr>looks := Suc (looks st), trace := trace st @ [Slept d]\<rparr>)"
  by (simp add: sleep_def)


lemma processApps_run_looks:
  assumes "\<forall>k. looks st \<le> k \<and> k < looks st + (2 * length apps - 1) \<longrightarrow> \<not> ctxDone env k"
    and "\<forall>app\<in>set apps. \<forall>rows. \<exists>r. verifyApp w (ctxError env) rows app (appEnv env c app) = Return r"
  shows "\<exists>st'. processApps w env c d apps st = Return (Next, st')
            \<and> trace st' = trace st @ between d apps
            \<and> looks st' = looks st + (2 * length apps - 1)"
  using assms
proof (induction apps arbitrary: st)
  case Nil
  then show ?case by simp
next
  case (Cons app apps)
  from Cons.prems(2) obtain err rows' where
    v: "verifyApp w (ctxError env) (store st) app (appEnv env c app) = Return (err, rows')"
    by (metis list.set_intros(1) surj_pair)
  from Cons.prems(2) have tot': "\<forall>app\<in>set apps. \<forall>rows.
      \<exists>r. verifyApp w (ctxError env) rows app (appEnv env c app) = Return r" by simp
  from Cons.prems(1) have nd: "\<not> ctxDone env (looks st)" by simp
  define st1 where "st1 = st\<lparr>looks := Suc (looks st), store := rows',
                              trace := trace st @ [Processed app]\<rparr>"
  show ?case
  proof (cases apps)
    case Nil
    with nd v show ?thesis by (simp add: Let_def)
  next
    case (Cons b bs)
    then have len: "length apps = Suc (length bs)" by simp
    from Cons.prems(1) have nd1: "\<not> ctxDone env (looks st1)" by (simp add: st1_def len)
    define st2 where "st2 = st1\<lparr>looks := Suc (looks st1), trace := trace st1 @ [Slept d]\<rparr>"
    have l2: "looks st2 = looks st + 2" by (simp add: st2_def st1_def)
    have "\<forall>k. looks st2 \<le> k \<and> k < looks st2 + (2 * length apps - 1) \<longrightarrow> \<not> ctxDone env k"
    proof (intro allI impI)
      fix k assume "looks st2 \<le> k \<and> k < looks st2 + (2 * length apps - 1)"
      then have "looks st \<le> k \<and> k < looks st + (2 * length (app # apps) - 1)"
        by (simp add: l2 len)
      with \<open>\<forall>k. looks st \<le> k \<and> k < looks st + (2 * length (app # apps) - 1)
               \<longrightarrow> \<not> ctxDone env k\<close>
      show "\<not> ctxDone env k" by blast
    qed
    from Cons.IH[OF this tot'] obtain st' where
      r: "processApps w env c d apps st2 = Return (Next, st')"
        "trace st' = trace st2 @ between d apps"
        "looks st' = looks st2 + (2 * length apps - 1)" by blast
    have "processApps w env c d (app # apps) st = processApps w env c d apps st2"
      using nd v Cons sleep_Next[OF nd1, of d]
      by (simp add: Let_def st1_def[symmetric] st2_def[symmetric])
    moreover have "trace st' = trace st @ between d (app # apps)"
      using r(2) Cons by (simp add: st2_def st1_def)
    moreover have "looks st' = looks st + (2 * length (app # apps) - 1)"
      using r(3) by (simp add: l2 len)
    ultimately show ?thesis using r(1) by simp
  qed
qed

lemma processApps_run:
  assumes "\<forall>k\<ge>looks st. \<not> ctxDone env k"
    and "\<forall>app\<in>set apps. \<forall>rows. \<exists>r. verifyApp w (ctxError env) rows app (appEnv env c app) = Return r"
  shows "\<exists>st'. processApps w env c d apps st = Return (Next, st')
            \<and> trace st' = trace st @ between d apps \<and> looks st \<le> looks st'"
proof -
  from assms(1) have "\<forall>k. looks st \<le> k \<and> k < looks st + (2 * length apps - 1)
      \<longrightarrow> \<not> ctxDone env k" by blast
  from processApps_run_looks[OF this assms(2), of d] show ?thesis by auto
qed









text \<open>
  C10. With the worker disabled, \<open>Start\<close> returns nil at once, for any number of turns
  allowed: it looks at nothing, lists no applications, verifies nothing and does not
  sleep (the state is returned as it was given).
\<close>

theorem Start_disabled:
  "\<not> Enabled (cfg w) \<Longrightarrow> Start fuel w env st = Return (None, st)"
  by (simp add: Start_def)



theorem Start_disabled_witness:
  "Start 0 \<lparr>cfg = \<lparr>Enabled = False, BackendURL = ''http://backend'', AppInterval = 1,
         PollInterval = 5, PollTimeout = 1, PrivateKey = [], SIWEDomain = ''localhost'',
         ChainID = 23295\<rparr>, authClient = None\<rparr>
     \<lparr>ctxDone = (\<lambda>k. False), ctxError = Canceled,
     allApps = (\<lambda>c. Inr [\<lparr>App_ID = 7, GitHubURL = ''https://github.com/org/app'', GitRef = ''main'', RoflYAML = None\<rparr>,
       \<lparr>App_ID = 8, GitHubURL = ''https://github.com/org/other'', GitRef = ''main'', RoflYAML = None\<rparr>]),
     appEnv = (\<lambda>c app. \<lparr>fetchExchange = \<lparr>newRequestErr = None, sendErr = None, statusCode = 404,
         decoded = Inl (ErrorString ''EOF'')\<rparr>,
     updateYAMLErr = None, parsed = (\<lambda>yaml. Inr []),
     deployEnv = (\<lambda>name. \<lparr>submitEnv = \<lparr>tokenResult = Inr [], http = \<lparr>newRequestErr = None, sendErr = None, statusCode = 500,
         decoded = Inl (ErrorString ''EOF'')\<rparr>\<rparr>,
       pollStart = 0, pollEvents = [], upsertExec = Inr 1\<rparr>)\<rparr>)\<rparr>
     \<lparr>looks = 0, store = [], trace = []\<rparr>
   = Return (None, \<lparr>looks = 0, store = [], trace = []\<rparr>)"
  by (rule Start_disabled) simp


section \<open>Verified properties: a failed submission\<close>

lemma fetchRoflYAML_ok:
  assumes "fetchRoflYAML app aenv = Return (None, app')"
  shows "App_ID app' = App_ID app \<and> GitHubURL app' = GitHubURL app \<and> GitRef app' = GitRef app"
  using assms
  by (auto simp: fetchRoflYAML_def split: if_splits option.splits sum.splits)

lemma verifyApp_deployments:
  assumes "fetchRoflYAML app aenv = Return (None, app')"
    and "RoflYAML app' = Some yaml" and "yaml \<noteq> []"
    and "parsed aenv yaml = Inr names" and "names \<noteq> []"
  shows "verifyApp w ctxErr rows app aenv
           = verifyDeployments w ctxErr rows app' names (deployEnv aenv) None"
  using assms by (simp add: verifyApp_def)

text \<open>
  C7, as the code has it. \<open>submitVerification\<close> returns a task id only when the request
  was sent and answered with status 200; another status gives an error that names the
  status, and a transport failure gives an error that wraps it. When the submission for
  a deployment of a manifest fails, \<open>verifyDeployment\<close> writes the deployment to the
  store as "failed" with the message "Failed to submit verification: ..." and the
  error's text, and returns the wrapped error whatever the store answers: when the store
  takes the write the table holds the deployment so, and when the store fails the table
  is as it was. \<open>verifyApp\<close> then still goes through the other declared deployments:
  it returns an error, the failed row (if the store took it) is still there at the end,
  and every deployment whose write the store took has a row. The loop over the
  applications goes on whatever the verifications return.
\<close>

theorem submission_failure_recorded:
  assumes "fetchRoflYAML app aenv = Return (None, app')"
    and "RoflYAML app' = Some yaml" and "yaml \<noteq> []"
    and "parsed aenv yaml = Inr names" and "distinct names" and "n \<in> set names"
    and "\<forall>m\<in>set names. \<forall>rows.
           \<exists>r. verifyDeployment w ctxErr rows app' m (deployEnv aenv m) = Return r"
    and "submitVerification w (GitHubURL app') (GitRef app') n (submitEnv (deployEnv aenv n))
           = Inl err"
  shows "(submitVerification w url ref name senv = Inr tid
            \<longrightarrow> newRequestErr (http senv) = None \<and> sendErr (http senv) = None
                \<and> statusCode (http senv) = StatusOK)
       \<and> (newRequestErr (http senv) = None
            \<and> (authClient w \<noteq> None \<longrightarrow> (\<exists>t. tokenResult senv = Inr t))
            \<and> sendErr (http senv) = None \<and> statusCode (http senv) \<noteq> StatusOK
            \<longrightarrow> submitVerification w url ref name senv
                  = Inl (ErrorString (''unexpected status code: '' @ itoa (statusCode (http senv)))))
       \<and> (newRequestErr (http senv) = None
            \<and> (authClient w \<noteq> None \<longrightarrow> (\<exists>t. tokenResult senv = Inr t))
            \<and> sendErr (http senv) = Some cause
            \<longrightarrow> submitVerification w url ref name senv
                  = Inl (Wrapped ''failed to send request: '' cause))
       \<and> verifyDeployment w ctxErr rows app' n (deployEnv aenv n)
           = Return (Some (Wrapped ''failed to submit verification: '' err),
               snd (UpsertDeployment rows (App_ID app) n [] StatusFailed
                      (''Failed to submit verification: '' @ Error err)
                      (upsertExec (deployEnv aenv n))))
       \<and> (upsertExec (deployEnv aenv n) = Inr rowID
            \<longrightarrow> recordedAs (snd (UpsertDeployment rows (App_ID app) n [] StatusFailed
                                   (''Failed to submit verification: '' @ Error err)
                                   (upsertExec (deployEnv aenv n))))
                   (App_ID app) n StatusFailed (''Failed to submit verification: '' @ Error err))
       \<and> (upsertExec (deployEnv aenv n) = Inl storeErr
            \<longrightarrow> snd (UpsertDeployment rows (App_ID app) n [] StatusFailed
                        (''Failed to submit verification: '' @ Error err)
                        (upsertExec (deployEnv aenv n))) = rows)
       \<and> (\<exists>e rows''. verifyApp w ctxErr rows app aenv = Return (Some e, rows'')
               \<and> ((\<exists>rid. upsertExec (deployEnv aenv n) = Inr rid)
                    \<longrightarrow> recordedAs rows'' (App_ID app) n StatusFailed
                          (''Failed to submit verification: '' @ Error err))
               \<and> (\<forall>m\<in>set names. (\<exists>rid. upsertExec (deployEnv aenv m) = Inr rid)
                      \<longrightarrow> recorded rows'' (App_ID app) m))
       \<and> ((\<forall>k\<ge>looks st. \<not> ctxDone senv' k)
            \<and> (\<forall>a\<in>set apps. \<forall>rows.
                  \<exists>r. verifyApp w (ctxError senv') rows a (appEnv senv' c a) = Return r)
            \<longrightarrow> (\<exists>st'. processApps w senv' c d apps st = Return (Next, st')
                    \<and> trace st' = trace st @ between d apps))"
proof -
  note same = fetchRoflYAML_ok[OF assms(1)]
  let ?msg = "''Failed to submit verification: '' @ Error err"
  let ?rows' = "snd (UpsertDeployment rows (App_ID app) n [] StatusFailed ?msg
                      (upsertExec (deployEnv aenv n)))"
  have c1: "submitVerification w url ref name senv = Inr tid
            \<longrightarrow> newRequestErr (http senv) = None \<and> sendErr (http senv) = None
                \<and> statusCode (http senv) = StatusOK"
    using submitVerification_Inr[of w url ref name senv tid] by blast
  have c2: "newRequestErr (http senv) = None
            \<and> (authClient w \<noteq> None \<longrightarrow> (\<exists>t. tokenResult senv = Inr t))
            \<and> sendErr (http senv) = None \<and> statusCode (http senv) \<noteq> StatusOK
            \<longrightarrow> submitVerification w url ref name senv
                  = Inl (ErrorString (''unexpected status code: '' @ itoa (statusCode (http senv))))"
    by (auto simp: submitVerification_def)
  have c3: "newRequestErr (http senv) = None
            \<and> (authClient w \<noteq> None \<longrightarrow> (\<exists>t. tokenResult senv = Inr t))
            \<and> sendErr (http senv) = Some cause
            \<longrightarrow> submitVerification w url ref name senv
                  = Inl (Wrapped ''failed to send request: '' cause)"
    by (auto simp: submitVerification_def)
  have c4: "verifyDeployment w ctxErr rows app' n (deployEnv aenv n)
           = Return (Some (Wrapped ''failed to submit verification: '' err), ?rows')"
    using verifyDeployment_submit_fail_eq[OF assms(8), of ctxErr rows] same
    by (simp add: StatusFailed_def)
  have c4a: "upsertExec (deployEnv aenv n) = Inr rowID
            \<longrightarrow> recordedAs ?rows' (App_ID app) n StatusFailed ?msg"
  proof
    assume ok: "upsertExec (deployEnv aenv n) = Inr rowID"
    obtain e r where up: "UpsertDeployment rows (App_ID app) n [] StatusFailed ?msg (Inr rowID)
                            = (e, r)"
      by (cases "UpsertDeployment rows (App_ID app) n [] StatusFailed ?msg (Inr rowID)")
    from Upsert_recordedAs[OF up] up ok
    show "recordedAs ?rows' (App_ID app) n StatusFailed ?msg" by simp
  qed
  have c4b: "upsertExec (deployEnv aenv n) = Inl storeErr \<longrightarrow> ?rows' = rows"
    by (simp add: Upsert_fail)
  have ne: "names \<noteq> []" using assms(6) by auto
  have c5: "\<exists>e rows''. verifyApp w ctxErr rows app aenv = Return (Some e, rows'')
               \<and> ((\<exists>rid. upsertExec (deployEnv aenv n) = Inr rid)
                    \<longrightarrow> recordedAs rows'' (App_ID app) n StatusFailed ?msg)
               \<and> (\<forall>m\<in>set names. (\<exists>rid. upsertExec (deployEnv aenv m) = Inr rid)
                      \<longrightarrow> recorded rows'' (App_ID app) m)"
    using verifyDeployments_failure[OF assms(5,6,7,8), of rows]
      verifyApp_deployments[OF assms(1,2,3,4) ne, of w ctxErr rows] same
    by (simp add: StatusFailed_def)
  have c6: "(\<forall>k\<ge>looks st. \<not> ctxDone senv' k)
            \<and> (\<forall>a\<in>set apps. \<forall>rows.
                  \<exists>r. verifyApp w (ctxError senv') rows a (appEnv senv' c a) = Return r)
            \<longrightarrow> (\<exists>st'. processApps w senv' c d apps st = Return (Next, st')
                    \<and> trace st' = trace st @ between d apps)"
    using processApps_run[of st senv' apps w c d] by blast
  from c1 c2 c3 c4 c4a c4b c5 c6 show ?thesis by (intro conjI)
qed

text \<open>
  C7 as stated fails when the store does not take the write, as with a context that is
  cancelled: the request is not sent, the write fails too, and \<open>verifyDeployment\<close> only
  logs that. The deployment, recorded as verified before, is still recorded so, and
  nothing says "failed".
\<close>

theorem submission_failure_unrecorded_counterexample:
  "verifyDeployment \<lparr>cfg = \<lparr>Enabled = True, BackendURL = ''http://backend'', AppInterval = 1,
         PollInterval = 5, PollTimeout = 1, PrivateKey = [], SIWEDomain = ''localhost'',
         ChainID = 23295\<rparr>, authClient = None\<rparr> Canceled
     [\<lparr>ID = 1, AppID = 7, DeploymentName = ''mainnet'', CommitSHA = Some ''abc123'',
       Status = ''verified'', VerificationMsg = Some matchMessage\<rparr>]
     \<lparr>App_ID = 7, GitHubURL = ''https://github.com/org/app'', GitRef = ''main'',
       RoflYAML = Some ''name: app''\<rparr> ''mainnet''
     \<lparr>submitEnv = \<lparr>tokenResult = Inr [], http = \<lparr>newRequestErr = None,
         sendErr = Some Canceled, statusCode = 0, decoded = Inl (ErrorString ''EOF'')\<rparr>\<rparr>,
       pollStart = 0, pollEvents = [], upsertExec = Inl Canceled\<rparr>
   = Return (Some (Wrapped ''failed to submit verification: ''
                     (Wrapped ''failed to send request: '' Canceled)),
       [\<lparr>ID = 1, AppID = 7, DeploymentName = ''mainnet'', CommitSHA = Some ''abc123'',
         Status = ''verified'', VerificationMsg = Some matchMessage\<rparr>])
   \<and> \<not> recordedAs
       [\<lparr>ID = 1, AppID = 7, DeploymentName = ''mainnet'', CommitSHA = Some ''abc123'',
         Status = ''verified'', VerificationMsg = Some matchMessage\<rparr>]
       7 ''mainnet'' StatusFailed
       (''Failed to submit verification: ''
          @ Error (Wrapped ''failed to send request: '' Canceled))"
  by code_simp

lemma verifyApp_example:
  "verifyApp \<lparr>cfg = \<lparr>Enabled = True, BackendURL = ''http://backend'', AppInterval = 1,
         PollInterval = 5, PollTimeout = 1, PrivateKey = [], SIWEDomain = ''localhost'',
         ChainID = 23295\<rparr>, authClient = None\<rparr> Canceled []
     \<lparr>App_ID = 7, GitHubURL = ''https://github.com/org/app'', GitRef = ''main'', RoflYAML = None\<rparr>
     \<lparr>fetchExchange = \<lparr>newRequestErr = None, sendErr = None, statusCode = 200,
         decoded = Inr ''name: app''\<rparr>,
     updateYAMLErr = None, parsed = (\<lambda>yaml. Inr [''testnet'', ''mainnet'']),
     deployEnv = (\<lambda>name. if name = ''testnet''
       then \<lparr>submitEnv = \<lparr>tokenResult = Inr [], http = \<lparr>newRequestErr = None, sendErr = None, statusCode = 500,
         decoded = Inl (ErrorString ''EOF'')\<rparr>\<rparr>,
       pollStart = 0, pollEvents = [], upsertExec = Inr 1\<rparr>
       else \<lparr>submitEnv = \<lparr>tokenResult = Inr [], http = \<lparr>newRequestErr = None, sendErr = None, statusCode = 200,
         decoded = Inr \<lparr>TaskID = ''t1''\<rparr>\<rparr>\<rparr>,
       pollStart = 0, pollEvents = [Tick (5 * Second) \<lparr>tokenResult = Inr [], http = \<lparr>newRequestErr = None, sendErr = None, statusCode = 202,
         decoded = Inl (ErrorString ''EOF'')\<rparr>\<rparr>,
        Tick (10 * Second) \<lparr>tokenResult = Inr [], http = \<lparr>newRequestErr = None, sendErr = None, statusCode = 202,
         decoded = Inl (ErrorString ''EOF'')\<rparr>\<rparr>,
        Tick (15 * Second) \<lparr>tokenResult = Inr [], http = \<lparr>newRequestErr = None, sendErr = None, statusCode = 200,
         decoded = Inr \<lparr>resStatus = [], Verified = True, resCommitSHA = ''abc123'', Stdout = [], Stderr = [], Err = []\<rparr>\<rparr>\<rparr>], upsertExec = Inr 2\<rparr>)\<rparr>
   = Return (Some (Wrapped ''failed to submit verification: ''
                     (ErrorString ''unexpected status code: 500'')),
       [\<lparr>ID = 1, AppID = 7, DeploymentName = ''testnet'', CommitSHA = Some [],
        Status = ''failed'',
        VerificationMsg = Some ''Failed to submit verification: unexpected status code: 500''\<rparr>,
        \<lparr>ID = 2, AppID = 7, DeploymentName = ''mainnet'', CommitSHA = Some ''abc123'',
        Status = ''verified'', VerificationMsg = Some matchMessage\<rparr>])"
  by code_simp

theorem submission_failure_recorded_witness:
  "\<exists>e rows''. verifyApp \<lparr>cfg = \<lparr>Enabled = True, BackendURL = ''http://backend'', AppInterval = 1,
         PollInterval = 5, PollTimeout = 1, PrivateKey = [], SIWEDomain = ''localhost'',
         ChainID = 23295\<rparr>, authClient = None\<rparr> Canceled []
     \<lparr>App_ID = 7, GitHubURL = ''https://github.com/org/app'', GitRef = ''main'', RoflYAML = None\<rparr>
     \<lparr>fetchExchange = \<lparr>newRequestErr = None, sendErr = None, statusCode = 200,
         decoded = Inr ''name: app''\<rparr>,
     updateYAMLErr = None, parsed = (\<lambda>yaml. Inr [''testnet'', ''mainnet'']),
     deployEnv = (\<lambda>name. if name = ''testnet''
       then \<lparr>submitEnv = \<lparr>tokenResult = Inr [], http = \<lparr>newRequestErr = None, sendErr = None, statusCode = 500,
         decoded = Inl (ErrorString ''EOF'')\<rparr>\<rparr>,
       pollStart = 0, pollEvents = [], upsertExec = Inr 1\<rparr>
       else \<lparr>submitEnv = \<lparr>tokenResult = Inr [], http = \<lparr>newRequestErr = None, sendErr = None, statusCode = 200,
         decoded = Inr \<lparr>TaskID = ''t1''\<rparr>\<rparr>\<rparr>,
       pollStart = 0, pollEvents = [Tick (5 * Second) \<lparr>tokenResult = Inr [], http = \<lparr>newRequestErr = None, sendErr = None, statusCode = 202,
         decoded = Inl (ErrorString ''EOF'')\<rparr>\<rparr>,
        Tick (10 * Second) \<lparr>tokenResult = Inr [], http = \<lparr>newRequestErr = None, sendErr = None, statusCode = 202,
         decoded = Inl (ErrorString ''EOF'')\<rparr>\<rparr>,
        Tick (15 * Second) \<lparr>tokenResult = Inr [], http = \<lparr>newRequestErr = None, sendErr = None, statusCode = 200,
         decoded = Inr \<lparr>resStatus = [], Verified = True, resCommitSHA = ''abc123'', Stdout = [], Stderr = [], Err = []\<rparr>\<rparr>\<rparr>], upsertExec = Inr 2\<rparr>)\<rparr> = Return (Some e, rows'')
     \<and> recordedAs rows'' 7 ''testnet'' ''failed''
          ''Failed to submit verification: unexpected status code: 500''
     \<and> recorded rows'' 7 ''mainnet''"
proof -
  define w where "w = \<lparr>cfg = \<lparr>Enabled = True, BackendURL = ''http://backend'', AppInterval = 1,
         PollInterval = 5, PollTimeout = 1, PrivateKey = [], SIWEDomain = ''localhost'',
         ChainID = 23295\<rparr>, authClient = None\<rparr>"
  define app where "app = \<lparr>App_ID = 7, GitHubURL = ''https://github.com/org/app'', GitRef = ''main'', RoflYAML = None\<rparr>"
  define app' where "app' = \<lparr>App_ID = 7, GitHubURL = ''https://github.com/org/app'', GitRef = ''main'', RoflYAML = Some ''name: app''\<rparr>"
  define sfail :: "VerifyDeploymentsResponse backend_call" where "sfail = \<lparr>tokenResult = Inr [], http = \<lparr>newRequestErr = None, sendErr = None, statusCode = 500,
         decoded = Inl (ErrorString ''EOF'')\<rparr>\<rparr>"
  define sok :: "VerifyDeploymentsResponse backend_call" where "sok = \<lparr>tokenResult = Inr [], http = \<lparr>newRequestErr = None, sendErr = None, statusCode = 200,
         decoded = Inr \<lparr>TaskID = ''t1''\<rparr>\<rparr>\<rparr>"
  define evs where "evs = [Tick (5 * Second) \<lparr>tokenResult = Inr [], http = \<lparr>newRequestErr = None, sendErr = None, statusCode = 202,
         decoded = Inl (ErrorString ''EOF'')\<rparr>\<rparr>,
        Tick (10 * Second) \<lparr>tokenResult = Inr [], http = \<lparr>newRequestErr = None, sendErr = None, statusCode = 202,
         decoded = Inl (ErrorString ''EOF'')\<rparr>\<rparr>,
        Tick (15 * Second) \<lparr>tokenResult = Inr [], http = \<lparr>newRequestErr = None, sendErr = None, statusCode = 200,
         decoded = Inr \<lparr>resStatus = [], Verified = True, resCommitSHA = ''abc123'', Stdout = [], Stderr = [], Err = []\<rparr>\<rparr>\<rparr>]"
  define dfail where "dfail = \<lparr>submitEnv = sfail, pollStart = 0, pollEvents = [], upsertExec = Inr 1\<rparr>"
  define dok where "dok = \<lparr>submitEnv = sok, pollStart = 0, pollEvents = evs, upsertExec = Inr 2\<rparr>"
  define aenv where "aenv = \<lparr>fetchExchange = \<lparr>newRequestErr = None, sendErr = None, statusCode = 200,
         decoded = Inr ''name: app''\<rparr>,
     updateYAMLErr = None, parsed = (\<lambda>yaml. Inr [''testnet'', ''mainnet'']),
     deployEnv = (\<lambda>name. if name = ''testnet'' then dfail else dok)\<rparr>"
  have h1: "fetchRoflYAML app aenv = Return (None, app')"
    by (simp add: fetchRoflYAML_def app_def aenv_def app'_def StatusOK_def)
  have h2: "RoflYAML app' = Some ''name: app''" by (simp add: app'_def)
  have h3: "''name: app'' \<noteq> []" by simp
  have h4: "parsed aenv ''name: app'' = Inr [''testnet'', ''mainnet'']" by (simp add: aenv_def)
  have h5: "distinct [''testnet'', ''mainnet'']" by simp
  have h6: "''testnet'' \<in> set [''testnet'', ''mainnet'']" by simp
  have s1: "submitVerification w (GitHubURL app') (GitRef app') ''testnet'' sfail
              = Inl (ErrorString ''unexpected status code: 500'')"
    unfolding w_def app'_def sfail_def by code_simp
  have s2: "submitVerification w (GitHubURL app') (GitRef app') ''mainnet'' sok = Inr ''t1''"
    unfolding w_def app'_def sok_def by code_simp
  have p2: "pollResults w Canceled 0 evs = Return (Inr (Some \<lparr>resStatus = [], Verified = True, resCommitSHA = ''abc123'', Stdout = [], Stderr = [], Err = []\<rparr>), 3)"
    unfolding w_def evs_def by code_simp
  have r1: "\<exists>r. verifyDeployment w Canceled rows app' ''testnet'' dfail = Return r" for rows
    by (simp add: verifyDeployment_def dfail_def s1 split: prod.splits)
  have r2: "\<exists>r. verifyDeployment w Canceled rows app' ''mainnet'' dok = Return r" for rows
    by (simp add: verifyDeployment_def dok_def s2 p2 Let_def UpsertDeployment_def)
  have h7: "\<forall>m\<in>set [''testnet'', ''mainnet'']. \<forall>rows.
           \<exists>r. verifyDeployment w Canceled rows app' m (deployEnv aenv m) = Return r"
    using r1 r2 by (simp add: aenv_def)
  have h8: "submitVerification w (GitHubURL app') (GitRef app') ''testnet''
              (submitEnv (deployEnv aenv ''testnet''))
           = Inl (ErrorString ''unexpected status code: 500'')"
    using s1 by (simp add: aenv_def dfail_def)
  have h9: "\<exists>rid. upsertExec (deployEnv aenv ''testnet'') = Inr rid"
    by (simp add: aenv_def dfail_def)
  note T = submission_failure_recorded[OF h1 h2 h3 h4 h5 h6 h7 h8, where rows="[]"]
  note T7 = conjunct1[OF conjunct2[OF conjunct2[OF conjunct2[OF conjunct2[OF conjunct2[OF
              conjunct2[OF T]]]]]]]
  from T7 obtain e rows'' where
    v: "verifyApp w Canceled [] app aenv = Return (Some e, rows'')"
    and ra0: "(\<exists>rid. upsertExec (deployEnv aenv ''testnet'') = Inr rid)
                \<longrightarrow> recordedAs rows'' (App_ID app) ''testnet'' StatusFailed
                    (''Failed to submit verification: ''
                       @ Error (ErrorString ''unexpected status code: 500''))"
    and rec: "\<forall>m\<in>set [''testnet'', ''mainnet'']. (\<exists>rid. upsertExec (deployEnv aenv m) = Inr rid)
                      \<longrightarrow> recorded rows'' (App_ID app) m"
    by blast
  from ra0 h9 have ra: "recordedAs rows'' (App_ID app) ''testnet'' StatusFailed
                    (''Failed to submit verification: ''
                       @ Error (ErrorString ''unexpected status code: 500''))" by (rule mp)
  have "\<exists>rid. upsertExec (deployEnv aenv ''mainnet'') = Inr rid" by (simp add: aenv_def dok_def)
  with rec have rm: "recorded rows'' (App_ID app) ''mainnet''" by simp
  from ra have ra': "recordedAs rows'' 7 ''testnet'' ''failed''
          ''Failed to submit verification: unexpected status code: 500''"
    by (simp add: app_def StatusFailed_def)
  from rm have rm': "recorded rows'' 7 ''mainnet''" by (simp add: app_def)
  from v ra' rm' show ?thesis
    unfolding w_def app_def aenv_def dfail_def dok_def sfail_def sok_def evs_def by blast
qed

section \<open>Two runs of the model\<close>

text \<open>
  The scenario of a task the backend no longer knows: the first poll is answered 404, and
  the deployment is recorded as failed with a message that says so.
\<close>

lemma verifyDeployment_not_found_example:
  "verifyDeployment \<lparr>cfg = \<lparr>Enabled = True, BackendURL = ''http://backend'', AppInterval = 1,
         PollInterval = 5, PollTimeout = 1, PrivateKey = [], SIWEDomain = ''localhost'',
         ChainID = 23295\<rparr>, authClient = None\<rparr> Canceled []
     \<lparr>App_ID = 7, GitHubURL = ''https://github.com/org/app'', GitRef = ''main'', RoflYAML = None\<rparr> ''mainnet''
     \<lparr>submitEnv = \<lparr>tokenResult = Inr [], http = \<lparr>newRequestErr = None, sendErr = None, statusCode = 200,
         decoded = Inr \<lparr>TaskID = ''t1''\<rparr>\<rparr>\<rparr>,
       pollStart = 0,
       pollEvents = [Tick (5 * Second) \<lparr>tokenResult = Inr [], http = \<lparr>newRequestErr = None, sendErr = None, statusCode = 404,
         decoded = Inl (ErrorString ''EOF'')\<rparr>\<rparr>],
       upsertExec = Inr 1\<rparr>
   = Return (Some (Wrapped ''failed to poll results: '' (ErrorString ''task not found or expired'')),
       [\<lparr>ID = 1, AppID = 7, DeploymentName = ''mainnet'', CommitSHA = Some [],
          Status = ''failed'',
          VerificationMsg = Some ''Failed to poll results: task not found or expired''\<rparr>])"
  by code_simp

text \<open>
  A context found done from the fourth look on: the loop lists the applications,
  processes the first, sleeps, and returns the context's error at the look before the
  second application.
\<close>

lemma Start_cancel_example:
  "Start 1 \<lparr>cfg = \<lparr>Enabled = True, BackendURL = ''http://backend'', AppInterval = 1,
         PollInterval = 5, PollTimeout = 1, PrivateKey = [], SIWEDomain = ''localhost'',
         ChainID = 23295\<rparr>, authClient = None\<rparr>
     \<lparr>ctxDone = (\<lambda>k. 3 \<le> k), ctxError = Canceled,
     allApps = (\<lambda>c. Inr [\<lparr>App_ID = 7, GitHubURL = ''https://github.com/org/app'', GitRef = ''main'', RoflYAML = None\<rparr>,
       \<lparr>App_ID = 8, GitHubURL = ''https://github.com/org/other'', GitRef = ''main'', RoflYAML = None\<rparr>]),
     appEnv = (\<lambda>c app. \<lparr>fetchExchange = \<lparr>newRequestErr = None, sendErr = None, statusCode = 404,
         decoded = Inl (ErrorString ''EOF'')\<rparr>,
     updateYAMLErr = None, parsed = (\<lambda>yaml. Inr []),
     deployEnv = (\<lambda>name. \<lparr>submitEnv = \<lparr>tokenResult = Inr [], http = \<lparr>newRequestErr = None, sendErr = None, statusCode = 500,
         decoded = Inl (ErrorString ''EOF'')\<rparr>\<rparr>,
       pollStart = 0, pollEvents = [], upsertExec = Inr 1\<rparr>)\<rparr>)\<rparr>
     \<lparr>looks = 0, store = [], trace = []\<rparr>
   = Return (Some Canceled,
       \<lparr>looks = 4, store = [],
        trace = [Listed, Processed \<lparr>App_ID = 7, GitHubURL = ''https://github.com/org/app'', GitRef = ''main'', RoflYAML = None\<rparr>,
                 Slept (1 * Minute)]\<rparr>)"
  by code_simp

end
